theory Spec2Isabelle
  imports Main "HOL-Library.Word"
begin

unbundle bit_operations_syntax

section \<open>The block reader of the HDFS client (rpc/block\_reader.go)\<close>

text \<open>
  A shallow embedding of \<^verbatim>\<open>src/rpc/block_reader.go\<close>. The Go code talks to
  datanodes over TCP; the model makes the network an explicit part of the state: a
  \<open>world\<close> holds every socket dialled so far (open or closed, the bytes written to it,
  the bytes still unread on it) and the process-wide failure cache, and an \<open>env\<close>
  holds what is fixed during a read: how each datanode address behaves when dialled, the
  protobuf codec and the package constants.
\<close>

subsection \<open>Bytes and errors\<close>

type_synonym byte = "8 word"

text \<open>
  The checksum type enum of the generated protobuf code (\<^verbatim>\<open>hdfs.ChecksumTypeProto\<close>).
  The source names two of its values; every other value of the underlying int32 takes
  the \<^verbatim>\<open>default\<close> branch of the switch in \<^verbatim>\<open>connectNext\<close>.
\<close>

datatype ChecksumTypeProto =
    CHECKSUM_CRC32
  | CHECKSUM_CRC32C
  | CHECKSUM_OTHER int

text \<open>The two tables of \<^verbatim>\<open>hash/crc32\<close> the source selects between.\<close>

datatype crc32_table = IEEETable | CastagnoliTable

text \<open>
  Go error values. \<open>ErrClosedPipe\<close>, \<open>EOF\<close> and \<open>ErrUnexpectedEOF\<close> are the
  sentinels of package \<^verbatim>\<open>io\<close>; \<open>ErrNoDatanodes\<close> is
  \<^verbatim>\<open>errors.New("No available datanodes for block.")\<close>; \<open>ErrUnsupportedChecksum\<close> is
  the \<^verbatim>\<open>fmt.Errorf("Unsupported checksum type: %d", ...)\<close> of \<^verbatim>\<open>connectNext\<close>;
  \<open>ErrOther\<close> stands for every error produced outside this file (dial, socket,
  codec, checksum stream); \<open>Panic\<close> is a Go run-time panic.
\<close>

datatype error =
    ErrClosedPipe
  | EOF
  | ErrUnexpectedEOF
  | ErrNoDatanodes
  | ErrUnsupportedChecksum ChecksumTypeProto
  | ErrOther string
  | Panic string

subsection \<open>Varints (encoding/binary)\<close>

definition MaxVarintLen32 :: nat where
  "MaxVarintLen32 = 5"

definition MaxVarintLen64 :: nat where
  "MaxVarintLen64 = 10"

text \<open>
  \<^verbatim>\<open>binary.Uvarint(buf)\<close>: the loop over \<open>buf\<close> with the index \<open>i\<close>, the value
  \<open>x\<close> accumulated so far and the shift \<open>s\<close>. It returns the value and the number of
  bytes read; 0 bytes when the buffer ends inside the varint, a negative count on
  overflow of 64 bits.
\<close>

fun uvarint_loop :: "byte list \<Rightarrow> nat \<Rightarrow> 64 word \<Rightarrow> nat \<Rightarrow> 64 word \<times> int" where
  "uvarint_loop [] i x s = (0, 0)"
| "uvarint_loop (b # bs) i x s =
     (if i = MaxVarintLen64 then (0, - (int i + 1))
      else if b < 0x80 then
        (if i = MaxVarintLen64 - 1 \<and> 1 < b then (0, - (int i + 1))
         else (x OR push_bit s (ucast b), int i + 1))
      else uvarint_loop bs (i + 1) (x OR push_bit s (ucast (b AND 0x7f))) (s + 7))"

definition Uvarint :: "byte list \<Rightarrow> 64 word \<times> int" where
  "Uvarint buf = uvarint_loop buf 0 0 0"

text \<open>\<^verbatim>\<open>binary.PutUvarint\<close>: seven bits a byte, least significant group first, the
  high bit set on every byte but the last.\<close>

fun PutUvarint :: "nat \<Rightarrow> byte list" where
  "PutUvarint x =
     (if 128 \<le> x then of_nat (x mod 128 + 128) # PutUvarint (x div 128)
      else [of_nat x])"

declare PutUvarint.simps [simp del]

subsection \<open>Sockets and the network\<close>

text \<open>
  What a datanode does once a TCP connection to it is open: the result of a
  \<^verbatim>\<open>Write\<close> on the socket, the bytes it sends, and the error a read returns once
  these bytes are used up (\<open>EOF\<close> for an orderly close).
\<close>

record node =
  n_werr :: "error option"
  n_incoming :: "byte list"
  n_rerr :: error

text \<open>
  A socket (\<^verbatim>\<open>net.Conn\<close>). \<open>written\<close> logs the argument of every \<^verbatim>\<open>Write\<close> call,
  \<open>incoming\<close> is what the peer has sent and the client has not read yet.
\<close>

record sock =
  peer :: string
  is_open :: bool
  written :: "byte list list"
  incoming :: "byte list"
  rerr :: error
  werr :: "error option"

text \<open>
  The mutable world outside the reader: the sockets dialled so far (a \<^verbatim>\<open>net.Conn\<close>
  value is an index into this list) and the process-wide failure cache.
\<close>

record world =
  socks :: "sock list"
  failures :: "string \<Rightarrow> nat"

type_synonym conn = nat

text \<open>One \<^verbatim>\<open>Read\<close> result of an \<^verbatim>\<open>io.Reader\<close>: the bytes delivered and the error.\<close>

type_synonym read_event = "byte list \<times> error option"

subsection \<open>Protobuf messages\<close>

record ExtendedBlockProto =
  PoolId :: string
  BlockId :: "64 word"
  GenerationStamp :: "64 word"
  NumBytes :: "64 word"

record DatanodeIDProto =
  IpAddr :: string
  XferPort :: "32 word"

record LocatedBlockProto =
  B :: ExtendedBlockProto
  BlockToken :: "byte list"
  Locs :: "DatanodeIDProto list"

record OpReadBlockProto =
  op_Block :: ExtendedBlockProto
  op_Token :: "byte list"
  op_ClientName :: string
  op_Offset :: "64 word"
  op_Len :: "64 word"

text \<open>The fields of \<^verbatim>\<open>BlockOpResponseProto\<close> that \<^verbatim>\<open>connectNext\<close> reads through
  its getters.\<close>

record BlockOpResponseProto =
  ChecksumType :: ChecksumTypeProto
  BytesPerChecksum :: "32 word"
  ChunkOffset :: "64 word"

text \<open>
  What is fixed while a block is read. \<open>nodes\<close> scripts \<^verbatim>\<open>net.DialTimeout\<close> for each
  address. \<open>marshal\<close> and \<open>unmarshal\<close> are the protobuf codec, a black box.
  \<open>decode_stream\<close> is the checksum-verifying \<^verbatim>\<open>blockReadStream\<close> built over a
  socket (its code is not part of this file): from the chunk size, the checksum table,
  the bytes still unread on the socket and the socket's final read error it gives the
  sequence of results the stream's \<^verbatim>\<open>Read\<close> will deliver. \<open>dataTransferVersion\<close> and
  \<open>ClientName\<close> are package constants declared elsewhere.
\<close>

record env =
  nodes :: "string \<Rightarrow> error + node"
  marshal :: "OpReadBlockProto \<Rightarrow> error + byte list"
  unmarshal :: "byte list \<Rightarrow> error + BlockOpResponseProto"
  decode_stream :: "nat \<Rightarrow> crc32_table \<Rightarrow> byte list \<Rightarrow> error \<Rightarrow> read_event list"
  dataTransferVersion :: byte
  ClientName :: string

text \<open>Modelled from the spec: the op code constant \<^verbatim>\<open>readBlockOp\<close> is declared
  outside this file; the spec (section 6) and the comment above
  \<^verbatim>\<open>writeBlockReadRequest\<close> give it as 0x51.\<close>

definition readBlockOp :: byte where
  "readBlockOp = 0x51"

subsection \<open>Socket operations\<close>

text \<open>\<^verbatim>\<open>net.DialTimeout\<close>: a failed dial leaves the world as it is, a successful one
  adds an open socket.\<close>

definition dial :: "env \<Rightarrow> world \<Rightarrow> string \<Rightarrow> error + (world \<times> conn)" where
  "dial e w address =
     (case nodes e address of
        Inl err \<Rightarrow> Inl err
      | Inr nd \<Rightarrow>
          Inr (w\<lparr>socks := socks w @
                 [\<lparr>peer = address, is_open = True, written = [],
                   incoming = n_incoming nd, rerr = n_rerr nd, werr = n_werr nd\<rparr>]\<rparr>,
               length (socks w)))"

definition conn_Close :: "world \<Rightarrow> conn \<Rightarrow> world" where
  "conn_Close w c = w\<lparr>socks := (socks w)[c := (socks w ! c)\<lparr>is_open := False\<rparr>]\<rparr>"

definition conn_Write :: "world \<Rightarrow> conn \<Rightarrow> byte list \<Rightarrow> world \<times> error option" where
  "conn_Write w c bs =
     (let s = socks w ! c
      in (w\<lparr>socks := (socks w)[c := s\<lparr>written := written s @ [bs]\<rparr>]\<rparr>, werr s))"

text \<open>
  \<^verbatim>\<open>io.ReadFull(r, buf)\<close> with \<open>len(buf) = n\<close> on a socket: exactly \<open>n\<close> bytes, or
  an error: \<open>EOF\<close> when the peer closed before the first byte, \<open>ErrUnexpectedEOF\<close> when it
  closed after some but not all, the socket's own error otherwise. With \<open>n = 0\<close> nothing
  is read.
\<close>

definition ReadFull :: "world \<Rightarrow> conn \<Rightarrow> nat \<Rightarrow> world \<times> (error + byte list)" where
  "ReadFull w c n =
     (let s = socks w ! c
      in if n = 0 then (w, Inr [])
         else if n \<le> length (incoming s)
         then (w\<lparr>socks := (socks w)[c := s\<lparr>incoming := drop n (incoming s)\<rparr>]\<rparr>,
               Inr (take n (incoming s)))
         else (w\<lparr>socks := (socks w)[c := s\<lparr>incoming := []\<rparr>]\<rparr>,
               Inl (if rerr s = EOF
                    then (if incoming s = [] then EOF else ErrUnexpectedEOF)
                    else rerr s)))"

subsection \<open>readBlockReadResponse\<close>

text \<open>
  The source reads \<open>MaxVarintLen32\<close> bytes into \<open>varintBytes\<close>, decodes the length
  prefix from them, allocates \<open>respBytes\<close> of that length, copies into it what is left
  of \<open>varintBytes\<close> after the varint (\<^verbatim>\<open>copy\<close> stops at the shorter of the two), reads
  the rest of \<open>respBytes\<close> from the socket and unmarshals.
\<close>

definition readBlockReadResponse ::
    "env \<Rightarrow> world \<Rightarrow> conn \<Rightarrow> world \<times> (error + BlockOpResponseProto)" where
  "readBlockReadResponse e w r =
     (case ReadFull w r MaxVarintLen32 of
        (w1, Inl err) \<Rightarrow> (w1, Inl err)
      | (w1, Inr varintBytes) \<Rightarrow>
          (case Uvarint varintBytes of
             (respLength, varintLength) \<Rightarrow>
               if varintLength < 1 then (w1, Inl ErrUnexpectedEOF)
               else
                 let extra = take (unat respLength) (drop (nat varintLength) varintBytes);
                     extraLength = length extra
                 in (case ReadFull w1 r (unat respLength - extraLength) of
                       (w2, Inl err) \<Rightarrow> (w2, Inl err)
                     | (w2, Inr rest) \<Rightarrow> (w2, unmarshal e (extra @ rest)))))"

subsection \<open>The failover selector\<close>

text \<open>Modelled from the spec: the type \<^verbatim>\<open>datanodeFailover\<close> and its methods \<^verbatim>\<open>next\<close>,
  \<^verbatim>\<open>recordFailure\<close>, \<^verbatim>\<open>numRemaining\<close> and \<^verbatim>\<open>lastError\<close> are used by this file and
  declared outside it. Section 4.1 of the spec: the candidates are kept in their
  original order; \<open>next\<close> pops the remaining candidate with the fewest failures in the
  shared cache, the earlier one on a tie, and fails when none remains; \<open>recordFailure\<close>
  stores the error as the session's last error and increments the cache counter of the
  address popped last.
\<close>

record datanodeFailover =
  df_datanodes :: "string list"
  currentDatanode :: string
  df_err :: "error option"

text \<open>Modelled from the spec: the constructor \<^verbatim>\<open>newDatanodeFailover\<close> (declared outside
  this file): a selector over the given candidates, with no address popped and no error
  recorded yet.\<close>

definition newDatanodeFailover :: "string list \<Rightarrow> datanodeFailover" where
  "newDatanodeFailover ds = \<lparr>df_datanodes = ds, currentDatanode = [], df_err = None\<rparr>"

text \<open>Modelled from the spec: the ranking inside \<^verbatim>\<open>datanodeFailover.next\<close> (declared
  outside this file): the candidate with the fewest recorded failures, the earliest of
  them on a tie.\<close>

fun pick :: "(string \<Rightarrow> nat) \<Rightarrow> string list \<Rightarrow> string option" where
  "pick f [] = None"
| "pick f (a # as) =
     (case pick f as of
        None \<Rightarrow> Some a
      | Some b \<Rightarrow> if f a \<le> f b then Some a else Some b)"

text \<open>Modelled from the spec: \<^verbatim>\<open>datanodeFailover.next\<close> (declared outside this
  file): pops the best-ranked candidate and remembers it as the current one; \<open>None\<close>
  when no candidate remains.\<close>

definition df_next :: "world \<Rightarrow> datanodeFailover \<Rightarrow> (string \<times> datanodeFailover) option" where
  "df_next w df =
     (case pick (failures w) (df_datanodes df) of
        None \<Rightarrow> None
      | Some a \<Rightarrow>
          Some (a, df\<lparr>df_datanodes := remove1 a (df_datanodes df), currentDatanode := a\<rparr>))"

text \<open>Modelled from the spec: \<^verbatim>\<open>datanodeFailover.recordFailure\<close> (declared outside
  this file): the error becomes the session's last error, and the shared counter of the
  address popped last goes up by one.\<close>

definition recordFailure ::
    "world \<Rightarrow> datanodeFailover \<Rightarrow> error \<Rightarrow> world \<times> datanodeFailover" where
  "recordFailure w df x =
     (w\<lparr>failures := (failures w)(currentDatanode df := Suc (failures w (currentDatanode df)))\<rparr>,
      df\<lparr>df_err := Some x\<rparr>)"

text \<open>Modelled from the spec: \<^verbatim>\<open>datanodeFailover.numRemaining\<close> (declared outside
  this file): the number of candidates not popped yet.\<close>

definition numRemaining :: "datanodeFailover \<Rightarrow> nat" where
  "numRemaining df = length (df_datanodes df)"

text \<open>Modelled from the spec: \<^verbatim>\<open>datanodeFailover.lastError\<close> (declared outside this
  file): the error recorded last, if any.\<close>

definition lastError :: "datanodeFailover \<Rightarrow> error option" where
  "lastError df = df_err df"

subsection \<open>The checksummed stream\<close>

text \<open>Modelled from the spec: \<^verbatim>\<open>blockReadStream\<close> and \<^verbatim>\<open>newBlockReadStream\<close> are declared
  outside this file. The stream is an \<^verbatim>\<open>io.Reader\<close> over the socket (spec, section
  4.4); here it holds the results its \<^verbatim>\<open>Read\<close> calls are going to deliver, as
  \<open>decode_stream\<close> derives them from the socket. A \<^verbatim>\<open>Read\<close> into a buffer shorter
  than the next result delivers the part that fits, without error, and keeps the rest;
  a stream with nothing left returns \<open>EOF\<close>.
\<close>

record blockReadStream =
  s_conn :: conn
  s_chunkSize :: nat
  s_table :: crc32_table
  s_pending :: "read_event list"

text \<open>Modelled from the spec: \<^verbatim>\<open>newBlockReadStream\<close> (declared outside this file):
  the stream over what is still unread on the socket.\<close>

definition newBlockReadStream ::
    "env \<Rightarrow> world \<Rightarrow> conn \<Rightarrow> nat \<Rightarrow> crc32_table \<Rightarrow> blockReadStream" where
  "newBlockReadStream e w c chunkSize tab =
     \<lparr>s_conn = c, s_chunkSize = chunkSize, s_table = tab,
      s_pending = decode_stream e chunkSize tab (incoming (socks w ! c)) (rerr (socks w ! c))\<rparr>"

text \<open>Modelled from the spec: what \<^verbatim>\<open>blockReadStream.Read\<close> (declared outside this
  file) does with the pending results and a buffer of \<open>n\<close> bytes.\<close>

fun script_read ::
    "read_event list \<Rightarrow> nat \<Rightarrow> byte list \<times> error option \<times> read_event list" where
  "script_read [] n = ([], Some EOF, [])"
| "script_read ((bs, x) # rest) n =
     (if length bs \<le> n then (bs, x, rest)
      else (take n bs, None, (drop n bs, x) # rest))"

text \<open>Modelled from the spec: \<^verbatim>\<open>blockReadStream.Read\<close> (declared outside this file),
  as an \<^verbatim>\<open>io.Reader\<close>: the bytes read, the error, and the stream afterwards.\<close>

definition stream_Read ::
    "blockReadStream \<Rightarrow> nat \<Rightarrow> byte list \<times> error option \<times> blockReadStream" where
  "stream_Read st n =
     (case script_read (s_pending st) n of
        (bs, x, p) \<Rightarrow> (bs, x, st\<lparr>s_pending := p\<rparr>))"


fun script_size :: "read_event list \<Rightarrow> nat" where
  "script_size [] = 0"
| "script_size ((bs, x) # rest) = Suc (length bs) + script_size rest"

lemma script_read_size:
  "script_read p n = (bs, None, p') \<Longrightarrow> 0 < n \<Longrightarrow> script_size p' < script_size p"
  by (induction p n rule: script_read.induct) (auto split: if_splits)

lemma stream_Read_size:
  "stream_Read st n = (bs, None, st') \<Longrightarrow> 0 < n
     \<Longrightarrow> script_size (s_pending st') < script_size (s_pending st)"
  by (auto simp: stream_Read_def split: prod.splits dest: script_read_size)

text \<open>
  \<^verbatim>\<open>io.CopyN(ioutil.Discard, stream, n)\<close>. \<^verbatim>\<open>CopyN\<close> wraps the stream in a
  \<^verbatim>\<open>LimitedReader\<close> of \<open>n\<close> bytes and hands it to \<^verbatim>\<open>Discard.ReadFrom\<close>, which reads
  into a buffer of 8192 bytes until an error: \<open>discard_loop\<close> is that loop, with the
  bytes the limit still allows and the bytes read so far. \<open>EOF\<close> ends \<^verbatim>\<open>ReadFrom\<close>
  without error, and so does the limit when it reaches 0.
\<close>

function discard_loop ::
    "blockReadStream \<Rightarrow> nat \<Rightarrow> nat \<Rightarrow> blockReadStream \<times> nat \<times> error option" where
  "discard_loop st lim n =
     (if lim = 0 then (st, n, None)
      else case stream_Read st (min 8192 lim) of
             (bs, Some x, st') \<Rightarrow> (st', n + length bs, if x = EOF then None else Some x)
           | (bs, None, st') \<Rightarrow> discard_loop st' (lim - length bs) (n + length bs))"
  by pat_completeness auto
termination
  apply (relation "measure (\<lambda>(st, lim, n). script_size (s_pending st))")
   apply simp
  apply clarsimp
  apply (rule stream_Read_size)
   apply (rule sym, assumption)
  apply simp
  done

declare discard_loop.simps [simp del]

definition CopyN_Discard ::
    "blockReadStream \<Rightarrow> nat \<Rightarrow> blockReadStream \<times> nat \<times> error option" where
  "CopyN_Discard st n =
     (case discard_loop st n 0 of
        (st', k, x) \<Rightarrow>
          if k = n then (st', n, None)
          else if k < n \<and> x = None then (st', k, Some EOF)
          else (st', k, x))"

subsection \<open>The BlockReader\<close>

record BlockReader =
  block :: LocatedBlockProto
  datanodes :: datanodeFailover
  stream :: "blockReadStream option"
  conn :: "conn option"
  offset :: "64 word"
  closed :: bool

text \<open>\<^verbatim>\<open>fmt.Sprintf("%d", n)\<close> for an unsigned number.\<close>

fun decimal :: "nat \<Rightarrow> string" where
  "decimal n =
     (if n < 10 then [char_of (48 + n)]
      else decimal (n div 10) @ [char_of (48 + n mod 10)])"

declare decimal.simps [simp del]

definition NewBlockReader :: "LocatedBlockProto \<Rightarrow> 64 word \<Rightarrow> BlockReader" where
  "NewBlockReader blk off =
     (let locs = Locs blk;
          dns = map (\<lambda>dn. IpAddr dn @ '':'' @ decimal (unat (XferPort dn))) locs
      in \<lparr>block = blk, datanodes = newDatanodeFailover dns, stream = None, conn = None,
          offset = off, closed = False\<rparr>)"

definition newBlockReadOp ::
    "env \<Rightarrow> LocatedBlockProto \<Rightarrow> 64 word \<Rightarrow> 64 word \<Rightarrow> OpReadBlockProto" where
  "newBlockReadOp e blk off len =
     \<lparr>op_Block = B blk, op_Token = BlockToken blk, op_ClientName = ClientName e,
      op_Offset = off, op_Len = len\<rparr>"

text \<open>Modelled from the spec: the helper \<^verbatim>\<open>makeDelimitedMsg\<close> is declared outside this
  file. Section 4.3 of the spec: the serialized message, with its length as a varint
  directly before it.
\<close>

definition makeDelimitedMsg :: "env \<Rightarrow> OpReadBlockProto \<Rightarrow> error + byte list" where
  "makeDelimitedMsg e m =
     (case marshal e m of
        Inl x \<Rightarrow> Inl x
      | Inr msgBytes \<Rightarrow> Inr (PutUvarint (length msgBytes) @ msgBytes))"

definition writeBlockReadRequest ::
    "env \<Rightarrow> world \<Rightarrow> BlockReader \<Rightarrow> conn \<Rightarrow> world \<times> error option" where
  "writeBlockReadRequest e w br c =
     (let header = [0x00, dataTransferVersion e, readBlockOp];
          needed = NumBytes (B (block br)) - offset br;
          m = newBlockReadOp e (block br) (offset br) needed
      in case makeDelimitedMsg e m of
           Inl x \<Rightarrow> (w, Some x)
         | Inr opBytes \<Rightarrow> conn_Write w c (header @ opBytes))"

text \<open>
  \<^verbatim>\<open>connectNext\<close>. The source's \<^verbatim>\<open>next()\<close> returns only an address, so with no
  candidate left it cannot return normally; \<^verbatim>\<open>Read\<close> calls \<^verbatim>\<open>connectNext\<close> only
  when a candidate remains. \<open>amountToDiscard\<close> is an int64: the subtraction wraps and
  the comparison with 0 is signed.
\<close>

definition connectNext ::
    "env \<Rightarrow> world \<Rightarrow> BlockReader \<Rightarrow> world \<times> BlockReader \<times> error option" where
  "connectNext e w br =
     (case df_next w (datanodes br) of
        None \<Rightarrow> (w, br, Some (Panic ''no datanodes left''))
      | Some (address, df) \<Rightarrow>
          let br0 = br\<lparr>datanodes := df\<rparr>
          in (case dial e w address of
               Inl x \<Rightarrow> (w, br0, Some x)
             | Inr (w1, c) \<Rightarrow>
                 (case writeBlockReadRequest e w1 br0 c of
                    (w2, Some x) \<Rightarrow> (w2, br0, Some x)
                  | (w2, None) \<Rightarrow>
                      (case readBlockReadResponse e w2 c of
                         (w3, Inl x) \<Rightarrow> (w3, br0, Some x)
                       | (w3, Inr resp) \<Rightarrow>
                           (case (case ChecksumType resp of
                                    CHECKSUM_CRC32 \<Rightarrow> Inr IEEETable
                                  | CHECKSUM_CRC32C \<Rightarrow> Inr CastagnoliTable
                                  | t \<Rightarrow> Inl (ErrUnsupportedChecksum t)) of
                              Inl x \<Rightarrow> (w3, br0, Some x)
                            | Inr checksumTab \<Rightarrow>
                                let chunkSize = unat (BytesPerChecksum resp);
                                    st = newBlockReadStream e w3 c chunkSize checksumTab;
                                    amountToDiscard = offset br0 - ChunkOffset resp
                                in if 0 < sint amountToDiscard
                                   then (case CopyN_Discard st (nat (sint amountToDiscard)) of
                                           (st', k, Some x) \<Rightarrow>
                                             (conn_Close w3 c, br0,
                                              Some (if x = EOF then ErrUnexpectedEOF else x))
                                         | (st', k, None) \<Rightarrow>
                                             (w3, br0\<lparr>stream := Some st', conn := Some c\<rparr>, None))
                                   else (w3, br0\<lparr>stream := Some st, conn := Some c\<rparr>, None))))))"

definition Close :: "world \<Rightarrow> BlockReader \<Rightarrow> world \<times> BlockReader" where
  "Close w br =
     (case conn br of
        None \<Rightarrow> (w, br\<lparr>closed := True\<rparr>)
      | Some c \<Rightarrow> (conn_Close w c, br\<lparr>closed := True\<rparr>))"

text \<open>
  One pass through the body of the retry loop of \<^verbatim>\<open>Read\<close> either returns from
  \<^verbatim>\<open>Read\<close> or goes round again (\<^verbatim>\<open>continue\<close>).
\<close>

datatype step =
    Return world BlockReader "byte list" "error option"
  | Continue world BlockReader

text \<open>
  The second half of the loop body: the read from the active stream \<open>st\<close>, the
  addition to the offset, and the handling of the stream's error. The returned list is
  what the call wrote to the front of the caller's buffer; its length is the count
  \<open>n\<close>.
\<close>

definition try_read :: "world \<Rightarrow> BlockReader \<Rightarrow> blockReadStream \<Rightarrow> nat \<Rightarrow> step" where
  "try_read w br st len_b =
     (case stream_Read st len_b of
        (bs, x, st') \<Rightarrow>
          let br1 = br\<lparr>stream := Some st', offset := offset br + of_nat (length bs)\<rparr>
          in if x \<noteq> None \<and> x \<noteq> Some EOF
             then (case recordFailure w (datanodes br1) (the x) of
                     (w', df) \<Rightarrow>
                       let br2 = br1\<lparr>stream := None, datanodes := df\<rparr>
                       in if 0 < length bs then Return w' br2 bs None
                          else Continue w' br2)
             else Return w br1 bs x)"

text \<open>
  The loop body. When \<^verbatim>\<open>connectNext\<close> returns no error it has set the stream; a nil
  stream there would be a nil dereference.
\<close>

definition loop_body :: "env \<Rightarrow> world \<Rightarrow> BlockReader \<Rightarrow> nat \<Rightarrow> step" where
  "loop_body e w br len_b =
     (case stream br of
        Some st \<Rightarrow> try_read w br st len_b
      | None \<Rightarrow>
          (case connectNext e w br of
             (w1, br1, Some x) \<Rightarrow>
               (case recordFailure w1 (datanodes br1) x of
                  (w2, df) \<Rightarrow> Continue w2 (br1\<lparr>datanodes := df\<rparr>))
           | (w1, br1, None) \<Rightarrow>
               (case stream br1 of
                  Some st \<Rightarrow> try_read w1 br1 st len_b
                | None \<Rightarrow> Return w1 br1 [] (Some (Panic ''nil stream'')))))"

text \<open>What \<^verbatim>\<open>Read\<close> returns after the loop.\<close>

definition loop_exit :: "BlockReader \<Rightarrow> error" where
  "loop_exit br =
     (case lastError (datanodes br) of
        None \<Rightarrow> ErrNoDatanodes
      | Some x \<Rightarrow> x)"

lemma pick_mem: "pick f xs = Some a \<Longrightarrow> a \<in> set xs"
  by (induction xs arbitrary: a) (auto split: option.splits if_splits)

lemma pick_None: "pick f xs = None \<longleftrightarrow> xs = []"
  by (cases xs) (auto split: option.splits)

lemma df_next_remaining:
  "df_next w df = Some (a, df') \<Longrightarrow> Suc (numRemaining df') = numRemaining df"
  by (auto simp: df_next_def numRemaining_def length_remove1 split: option.splits
           dest!: pick_mem) (metis Suc_pred length_pos_if_in_set)

lemma df_next_None: "df_next w df = None \<longleftrightarrow> numRemaining df = 0"
  by (auto simp: df_next_def numRemaining_def pick_None split: option.splits)

lemma recordFailure_remaining:
  "recordFailure w df x = (w', df') \<Longrightarrow> numRemaining df' = numRemaining df"
  by (auto simp: recordFailure_def numRemaining_def)

lemma connectNext_frame:
  assumes "connectNext e w br = (w', br', r)" and "df_next w (datanodes br) = Some (a, df)"
  shows "datanodes br' = df \<and> offset br' = offset br \<and> block br' = block br
         \<and> closed br' = closed br
         \<and> (case r of None \<Rightarrow> stream br' \<noteq> None \<and> conn br' \<noteq> None
                      | Some x \<Rightarrow> stream br' = stream br \<and> conn br' = conn br)"
  using assms
  by (auto simp: connectNext_def Let_def
           split: sum.splits prod.splits option.splits if_splits ChecksumTypeProto.splits)

text \<open>The termination measure of the retry loop: every pass that goes round again has
  used up a candidate or dropped the active stream.\<close>

definition rank :: "BlockReader \<Rightarrow> nat" where
  "rank br = 2 * numRemaining (datanodes br) + (if stream br = None then 0 else 1)"

lemma try_read_Continue:
  "try_read w br st n = Continue w' br'
     \<Longrightarrow> stream br' = None \<and> numRemaining (datanodes br') = numRemaining (datanodes br)"
  by (auto simp: try_read_def Let_def recordFailure_def numRemaining_def
           split: prod.splits if_splits)

lemma loop_body_rank:
  assumes "loop_body e w br n = Continue w' br'"
    and "stream br \<noteq> None \<or> 0 < numRemaining (datanodes br)"
  shows "rank br' < rank br"
proof (cases "stream br")
  case (Some st)
  with assms have "try_read w br st n = Continue w' br'"
    by (simp add: loop_body_def)
  from try_read_Continue [OF this] Some show ?thesis
    by (simp add: rank_def)
next
  case None
  with assms have "0 < numRemaining (datanodes br)"
    by simp
  then obtain a df where nx: "df_next w (datanodes br) = Some (a, df)"
    using df_next_None [of w "datanodes br"] by (cases "df_next w (datanodes br)") auto
  obtain w1 br1 r where cn: "connectNext e w br = (w1, br1, r)"
    by (cases "connectNext e w br") auto
  note fr = connectNext_frame [OF cn nx]
  from df_next_remaining [OF nx] fr
  have less: "Suc (numRemaining (datanodes br1)) = numRemaining (datanodes br)"
    by simp
  show ?thesis
  proof (cases r)
    case (Some x)
    with assms None cn fr less show ?thesis
      by (auto simp: loop_body_def rank_def recordFailure_def numRemaining_def
               split: prod.splits)
  next
    case rNone: None
    with fr obtain st where st: "stream br1 = Some st"
      by auto
    with assms None cn rNone have "try_read w1 br1 st n = Continue w' br'"
      by (simp add: loop_body_def)
    from try_read_Continue [OF this] less show ?thesis
      by (simp add: rank_def)
  qed
qed

text \<open>The retry loop of \<^verbatim>\<open>Read\<close>, and what follows it.\<close>

function read_loop ::
    "env \<Rightarrow> world \<Rightarrow> BlockReader \<Rightarrow> nat \<Rightarrow> world \<times> BlockReader \<times> byte list \<times> error option" where
  "read_loop e w br len_b =
     (if stream br \<noteq> None \<or> 0 < numRemaining (datanodes br)
      then (case loop_body e w br len_b of
              Return w' br' bs x \<Rightarrow> (w', br', bs, x)
            | Continue w' br' \<Rightarrow> read_loop e w' br' len_b)
      else (w, br, [], Some (loop_exit br)))"
  by pat_completeness auto
termination
  apply (relation "measure (\<lambda>(e, w, br, len_b). rank br)")
   apply simp
  apply (simp add: loop_body_rank)
  done

declare read_loop.simps [simp del]

definition Read ::
    "env \<Rightarrow> world \<Rightarrow> BlockReader \<Rightarrow> nat \<Rightarrow> world \<times> BlockReader \<times> byte list \<times> error option" where
  "Read e w br len_b =
     (if closed br then (w, br, [], Some ErrClosedPipe)
      else if NumBytes (B (block br)) \<le> offset br
      then (case Close w br of (w', br') \<Rightarrow> (w', br', [], Some EOF))
      else read_loop e w br len_b)"

subsection \<open>Example inputs\<close>

text \<open>
  A small codec, a small stream decoder and a block with two replica locations, for
  evaluating the definitions on concrete inputs. The example codec reads a response
  message of four bytes (status, checksum type, bytes per checksum, chunk offset) and
  writes a request message of two bytes (offset, length); the example
  decoder delivers the bytes of the socket as they are and reports a checksum mismatch
  at the first byte 0xFF.
\<close>

definition ex_unmarshal :: "byte list \<Rightarrow> error + BlockOpResponseProto" where
  "ex_unmarshal bs =
     (case bs of
        [status, t, c, off] \<Rightarrow>
          Inr \<lparr>ChecksumType =
                 (if t = 1 then CHECKSUM_CRC32 else if t = 2 then CHECKSUM_CRC32C
                  else CHECKSUM_OTHER (uint t)),
               BytesPerChecksum = ucast c, ChunkOffset = ucast off\<rparr>
      | _ \<Rightarrow> Inl (ErrOther ''proto: cannot parse''))"

definition ex_marshal :: "OpReadBlockProto \<Rightarrow> error + byte list" where
  "ex_marshal m = Inr [ucast (op_Offset m), ucast (op_Len m)]"

definition ex_decode :: "nat \<Rightarrow> crc32_table \<Rightarrow> byte list \<Rightarrow> error \<Rightarrow> read_event list" where
  "ex_decode chunkSize tab bs x =
     (if 0xFF \<in> set bs
      then [(takeWhile (\<lambda>b. b \<noteq> 0xFF) bs, Some (ErrOther ''checksum mismatch''))]
      else if x = EOF then [(bs, None)]
      else [(bs, None), ([], Some x)])"

definition ex_env :: "(string \<Rightarrow> error + node) \<Rightarrow> env" where
  "ex_env ns =
     \<lparr>nodes = ns, marshal = ex_marshal, unmarshal = ex_unmarshal,
      decode_stream = ex_decode, dataTransferVersion = 0x1C, ClientName = ''go-hdfs''\<rparr>"

definition ex_block :: LocatedBlockProto where
  "ex_block =
     \<lparr>B = \<lparr>PoolId = ''bp'', BlockId = 7, GenerationStamp = 1, NumBytes = 10\<rparr>,
      BlockToken = [],
      Locs = [\<lparr>IpAddr = ''a'', XferPort = 1\<rparr>, \<lparr>IpAddr = ''b'', XferPort = 2\<rparr>]\<rparr>"

definition ex_world :: world where
  "ex_world = \<lparr>socks = [], failures = (\<lambda>a. 0)\<rparr>"

text \<open>A network on which every dial is refused.\<close>

definition no_nodes :: "string \<Rightarrow> error + node" where
  "no_nodes a = Inl (ErrOther ''connection refused'')"

text \<open>
  Networks for the example block (10 bytes, replicas \<open>a:1\<close> and \<open>b:2\<close>). A datanode
  that \<open>serve\<close>s a byte sequence accepts the request, sends these bytes and closes.
  A well-formed response header of the example codec is the varint 4 and four message
  bytes; the data follow it.
\<close>

definition serve :: "byte list \<Rightarrow> error + node" where
  "serve bs = Inr \<lparr>n_werr = None, n_incoming = bs, n_rerr = EOF\<rparr>"

definition two_nodes :: "error + node \<Rightarrow> error + node \<Rightarrow> string \<Rightarrow> error + node" where
  "two_nodes x y a =
     (if a = ''a:1'' then x else if a = ''b:2'' then y
      else Inl (ErrOther ''connection refused''))"

text \<open>\<open>a:1\<close> sends four good bytes and then data that fail their checksum; \<open>b:2\<close>
  answers a request from offset 4 with the last six bytes.\<close>

definition flaky_nodes :: "string \<Rightarrow> error + node" where
  "flaky_nodes =
     two_nodes (serve [4, 0, 1, 4, 0, 1, 2, 3, 4, 0xFF])
               (serve [4, 0, 1, 4, 4, 5, 6, 7, 8, 9, 10])"

text \<open>The first data of \<open>a:1\<close> fail their checksum; \<open>b:2\<close> serves the whole block.\<close>

definition corrupt_nodes :: "string \<Rightarrow> error + node" where
  "corrupt_nodes =
     two_nodes (serve [4, 0, 1, 4, 0, 0xFF])
               (serve [4, 0, 1, 4, 0, 1, 2, 3, 4, 5, 6, 7, 8, 9, 10])"

text \<open>\<open>a:1\<close> accepts the connection and fails the write of the request.\<close>

definition wfail_nodes :: "string \<Rightarrow> error + node" where
  "wfail_nodes =
     two_nodes (Inr \<lparr>n_werr = Some (ErrOther ''broken pipe''), n_incoming = [], n_rerr = EOF\<rparr>)
               (serve [4, 0, 1, 4, 0, 1, 2, 3, 4, 5, 6, 7, 8, 9, 10])"

text \<open>\<open>a:1\<close> closes in the middle of the response header.\<close>

definition trunc_nodes :: "string \<Rightarrow> error + node" where
  "trunc_nodes =
     two_nodes (serve [4, 0, 1])
               (serve [4, 0, 1, 4, 0, 1, 2, 3, 4, 5, 6, 7, 8, 9, 10])"

text \<open>The response of \<open>a:1\<close> names checksum type 0, which is neither CRC-32 variant.\<close>

definition unsupported_nodes :: "string \<Rightarrow> error + node" where
  "unsupported_nodes =
     two_nodes (serve [4, 0, 0, 4, 0, 1, 2, 3, 4, 5, 6, 7, 8, 9, 10])
               (serve [4, 0, 1, 4, 0, 1, 2, 3, 4, 5, 6, 7, 8, 9, 10])"

text \<open>For a read from offset 6 with chunks of 4 bytes, both streams start at chunk
  offset 4; \<open>a:1\<close> ends after one byte, \<open>b:2\<close> serves the rest of the block.\<close>

definition short_nodes :: "string \<Rightarrow> error + node" where
  "short_nodes =
     two_nodes (serve [4, 0, 1, 4, 4, 5])
               (serve [4, 0, 1, 4, 4, 5, 6, 7, 8, 9, 10])"

text \<open>A world with one open socket to \<open>a:1\<close>, and the selector after \<open>a:1\<close> was
  popped from the two candidates of the example block.\<close>

definition one_sock :: "byte list list \<Rightarrow> byte list \<Rightarrow> world" where
  "one_sock ws bs =
     \<lparr>socks = [\<lparr>peer = ''a:1'', is_open = True, written = ws, incoming = bs,
                 rerr = EOF, werr = None\<rparr>],
      failures = (\<lambda>a. 0)\<rparr>"

definition popped_a :: datanodeFailover where
  "popped_a = \<lparr>df_datanodes = [''b:2''], currentDatanode = ''a:1'', df_err = None\<rparr>"

text \<open>A codec whose response message is a single byte, the checksum type.\<close>

definition short_unmarshal :: "byte list \<Rightarrow> error + BlockOpResponseProto" where
  "short_unmarshal bs =
     (case bs of
        [t] \<Rightarrow>
          Inr \<lparr>ChecksumType =
                 (if t = 1 then CHECKSUM_CRC32 else if t = 2 then CHECKSUM_CRC32C
                  else CHECKSUM_OTHER (uint t)),
               BytesPerChecksum = 512, ChunkOffset = 0\<rparr>
      | _ \<Rightarrow> Inl (ErrOther ''proto: cannot parse''))"

definition short_env :: env where
  "short_env = (ex_env no_nodes)\<lparr>unmarshal := short_unmarshal\<rparr>"

section \<open>Properties\<close>

subsection \<open>Auxiliary facts\<close>

lemma sint_le_uint: "sint (b :: 'a::len word) \<le> uint b"
proof -
  have "- (2 ^ (LENGTH('a) - Suc 0)) \<le> uint b"
    by (rule order_trans [of _ 0]) simp_all
  then show ?thesis
    by (simp add: sint_uint signed_take_bit_int_less_eq_self_iff)
qed

lemma word_le_of_uint_le_sint:
  fixes a b :: "'a::len word"
  assumes "uint a \<le> sint b"
  shows "a \<le> b"
  using assms sint_le_uint [of b] by (simp add: word_le_def)

lemma Read_open:
  "\<not> closed br \<Longrightarrow> offset br < NumBytes (B (block br))
     \<Longrightarrow> Read e w br n = read_loop e w br n"
  by (simp add: Read_def not_le [symmetric])

text \<open>A failed connection attempt is recorded and the loop goes on.\<close>

lemma loop_body_connect_failed:
  assumes "stream br = None" and "connectNext e w br = (w1, br1, Some x)"
    and "recordFailure w1 (datanodes br1) x = (w2, df)"
  shows "loop_body e w br n = Continue w2 (br1\<lparr>datanodes := df\<rparr>)"
  using assms by (simp add: loop_body_def)

lemma read_loop_connect_failed:
  assumes "stream br = None" and "0 < numRemaining (datanodes br)"
    and "connectNext e w br = (w1, br1, Some x)"
    and "recordFailure w1 (datanodes br1) x = (w2, df)"
  shows "read_loop e w br n = read_loop e w2 (br1\<lparr>datanodes := df\<rparr>) n"
  using assms(2) loop_body_connect_failed [OF assms(1) assms(3) assms(4), of n]
  by (subst read_loop.simps) simp

text \<open>Evaluating the definitions on the example inputs.\<close>

lemma decimal_1: "decimal (Suc 0) = ''1''"
  by code_simp

lemma decimal_2: "decimal 2 = ''2''"
  by code_simp

lemma ex_reader:
  "NewBlockReader ex_block off =
     \<lparr>block = ex_block,
      datanodes = \<lparr>df_datanodes = [''a:1'', ''b:2''], currentDatanode = [], df_err = None\<rparr>,
      stream = None, conn = None, offset = off, closed = False\<rparr>"
  by (simp add: NewBlockReader_def ex_block_def decimal_1 decimal_2 newDatanodeFailover_def)

lemma NewBlockReader_sel:
  "block (NewBlockReader b off) = b"
  "stream (NewBlockReader b off) = None"
  "conn (NewBlockReader b off) = None"
  "offset (NewBlockReader b off) = off"
  "closed (NewBlockReader b off) = False"
  by (simp_all add: NewBlockReader_def Let_def)

lemma ex_block_NumBytes: "NumBytes (B ex_block) = 10"
  by (simp add: ex_block_def)

lemmas ex_simps =
  ex_env_def ex_world_def ex_marshal_def ex_unmarshal_def ex_decode_def ex_reader
  ex_block_NumBytes serve_def two_nodes_def

lemmas model_simps =
  Read_def read_loop.simps loop_body_def try_read_def loop_exit_def lastError_def
  numRemaining_def connectNext_def df_next_def recordFailure_def dial_def
  writeBlockReadRequest_def makeDelimitedMsg_def newBlockReadOp_def conn_Write_def
  conn_Close_def Close_def readBlockOp_def PutUvarint.simps readBlockReadResponse_def
  ReadFull_def MaxVarintLen32_def MaxVarintLen64_def Uvarint_def newBlockReadStream_def
  stream_Read_def CopyN_Discard_def discard_loop.simps

subsection \<open>Varints and the response header\<close>

text \<open>\<open>Uvarint\<close> on a buffer shorter than ten bytes never reports an overflow, and
  consumes at most the buffer.\<close>

lemma uvarint_loop_count:
  "uvarint_loop bs i x s = (v, k) \<Longrightarrow> i + length bs < 10
     \<Longrightarrow> k = 0 \<or> (int i < k \<and> k \<le> int i + int (length bs))"
proof (induction bs arbitrary: i x s)
  case Nil
  then show ?case by simp
next
  case (Cons b bs)
  show ?case
  proof (cases "b < 0x80")
    case True
    with Cons.prems show ?thesis
      by (auto simp: MaxVarintLen64_def split: if_splits)
  next
    case False
    with Cons.prems
    have "uvarint_loop bs (i + 1) (x OR push_bit s (ucast (b AND 0x7f))) (s + 7) = (v, k)"
      by (simp add: MaxVarintLen64_def split: if_splits)
    from Cons.IH [OF this] Cons.prems(2) show ?thesis
      by auto
  qed
qed

lemma Uvarint_count:
  "Uvarint bs = (v, k) \<Longrightarrow> length bs < 10 \<Longrightarrow> 0 \<le> k \<and> k \<le> int (length bs)"
  using uvarint_loop_count [of bs 0 0 0 v k] by (auto simp: Uvarint_def)

text \<open>\<open>Uvarint\<close> decodes what \<open>PutUvarint\<close> encodes, whatever follows it in the
  buffer.\<close>

lemma low7_or_high: "(of_nat (n mod 128) :: 64 word) OR push_bit 7 (of_nat (n div 128)) = of_nat n"
proof -
  have "take_bit 7 (of_nat n :: 64 word) = of_nat (take_bit 7 n)"
    by (rule take_bit_of_nat)
  also have "take_bit 7 n = n mod 128"
    by (simp add: take_bit_eq_mod)
  finally have low: "(of_nat (n mod 128) :: 64 word) = take_bit 7 (of_nat n)"
    by simp
  have "(of_nat (n mod 128) :: 64 word) AND push_bit 7 (of_nat (n div 128)) = 0"
    unfolding low by (rule bit_eqI) (auto simp: bit_simps)
  then have "(of_nat (n mod 128) :: 64 word) OR push_bit 7 (of_nat (n div 128))
               = of_nat (n mod 128) + push_bit 7 (of_nat (n div 128))"
    by (rule disjunctive_add_eq_or [symmetric])
  also have "\<dots> = of_nat n"
  proof -
    have "of_nat (n mod 128) + of_nat (n div 128) * of_nat 128 = (of_nat n :: 64 word)"
      unfolding of_nat_add [symmetric] of_nat_mult [symmetric]
      by (simp only: mod_div_mult_eq)
    then show ?thesis
      by (simp add: push_bit_eq_mult)
  qed
  finally show ?thesis .
qed

lemma byte_small:
  assumes "n < 128"
  shows "(of_nat n :: byte) < 0x80" and "(ucast (of_nat n :: byte) :: 64 word) = of_nat n"
proof -
  have u: "unat (of_nat n :: byte) = n"
    using assms by (simp add: unat_of_nat)
  then show "(of_nat n :: byte) < 0x80"
    using assms by (simp add: word_less_nat_alt)
  have "(ucast (of_nat n :: byte) :: 64 word) = of_nat (unat (of_nat n :: byte))"
    by simp
  then show "(ucast (of_nat n :: byte) :: 64 word) = of_nat n"
    unfolding u .
qed

lemma byte_cont:
  shows "\<not> (of_nat (n mod 128 + 128) :: byte) < 0x80"
    and "(ucast ((of_nat (n mod 128 + 128) :: byte) AND 0x7f) :: 64 word) = of_nat (n mod 128)"
proof -
  have u: "unat (of_nat (n mod 128 + 128) :: byte) = n mod 128 + 128"
    by (simp only: unat_of_nat) simp
  then show "\<not> (of_nat (n mod 128 + 128) :: byte) < 0x80"
    by (simp add: word_less_nat_alt)
  have m: "(0x7f :: byte) = mask 7"
    by (simp add: mask_eq_exp_minus_1)
  have "unat ((of_nat (n mod 128 + 128) :: byte) AND 0x7f) = take_bit 7 (n mod 128 + 128)"
    unfolding m take_bit_eq_mask [symmetric] unsigned_take_bit_eq u ..
  also have "\<dots> = n mod 128"
    by (simp add: take_bit_eq_mod)
  finally have "unat ((of_nat (n mod 128 + 128) :: byte) AND 0x7f) = n mod 128" .
  moreover have "(ucast ((of_nat (n mod 128 + 128) :: byte) AND 0x7f) :: 64 word)
                   = of_nat (unat ((of_nat (n mod 128 + 128) :: byte) AND 0x7f))"
    by simp
  ultimately show "(ucast ((of_nat (n mod 128 + 128) :: byte) AND 0x7f) :: 64 word)
                     = of_nat (n mod 128)"
    by simp
qed

lemma uvarint_loop_PutUvarint:
  "i + length (PutUvarint n) \<le> 9
     \<Longrightarrow> uvarint_loop (PutUvarint n @ rest) i x s
           = (x OR push_bit s (of_nat n), int i + int (length (PutUvarint n)))"
proof (induction n arbitrary: i x s rule: PutUvarint.induct)
  case (1 n)
  show ?case
  proof (cases "128 \<le> n")
    case True
    define b :: byte where "b = of_nat (n mod 128 + 128)"
    define lo :: "64 word" where "lo = of_nat (n mod 128)"
    from True have p: "PutUvarint n = b # PutUvarint (n div 128)"
      by (simp add: PutUvarint.simps [of n] b_def)
    have b: "\<not> b < 0x80" "ucast (b AND 0x7f) = lo"
      unfolding b_def lo_def by (rule byte_cont)+
    from p "1.prems" have "(i + 1) + length (PutUvarint (n div 128)) \<le> 9"
      by simp
    then
    have "uvarint_loop (PutUvarint (n div 128) @ rest) (i + 1) (x OR push_bit s lo) (s + 7)
          = ((x OR push_bit s lo) OR push_bit (s + 7) (of_nat (n div 128)),
             int (i + 1) + int (length (PutUvarint (n div 128))))"
      by (rule "1.IH" [OF True])
    moreover have "(x OR push_bit s lo) OR push_bit (s + 7) (of_nat (n div 128))
                     = x OR push_bit s (of_nat n)"
    proof -
      have "push_bit s lo OR push_bit (s + 7) (of_nat (n div 128))
              = push_bit s (lo OR push_bit 7 (of_nat (n div 128)))"
        by (simp add: add.commute)
      then show ?thesis
        unfolding lo_def low7_or_high by (simp add: or.assoc)
    qed
    moreover have "i \<noteq> MaxVarintLen64"
      using "1.prems" by (simp add: MaxVarintLen64_def)
    ultimately show ?thesis
      by (simp add: p b)
  next
    case False
    then have p: "PutUvarint n = [of_nat n]"
      by (simp add: PutUvarint.simps [of n])
    from False have "n < 128"
      by simp
    from byte_small [OF this] "1.prems" show ?thesis
      by (simp add: p MaxVarintLen64_def)
  qed
qed

lemma Uvarint_PutUvarint:
  "length (PutUvarint n) \<le> 9
     \<Longrightarrow> Uvarint (PutUvarint n @ rest) = (of_nat n, int (length (PutUvarint n)))"
  using uvarint_loop_PutUvarint [of 0 n rest 0 0] by (simp add: Uvarint_def)

lemma length_PutUvarint: "n < 2 ^ (7 * Suc k) \<Longrightarrow> length (PutUvarint n) \<le> Suc k"
proof (induction k arbitrary: n)
  case 0
  then show ?case
    by (simp add: PutUvarint.simps [of n])
next
  case (Suc k)
  show ?case
  proof (cases "128 \<le> n")
    case True
    from Suc.prems have "n div 128 < 2 ^ (7 * Suc k)"
      by (simp add: less_mult_imp_div_less power_add)
    from Suc.IH [OF this] True show ?thesis
      by (simp add: PutUvarint.simps [of n])
  next
    case False
    then show ?thesis
      by (simp add: PutUvarint.simps [of n])
  qed
qed

lemma PutUvarint_nonempty: "0 < length (PutUvarint n)"
  by (simp add: PutUvarint.simps [of n])

text \<open>The two reads of \<open>readBlockReadResponse\<close>, and the message they assemble.\<close>

lemma ReadFull_enough:
  assumes "r < length (socks w)" and "n \<le> length (incoming (socks w ! r))"
  shows "ReadFull w r n
           = (w\<lparr>socks := (socks w)[r := (socks w ! r)\<lparr>incoming := drop n (incoming (socks w ! r))\<rparr>]\<rparr>,
              Inr (take n (incoming (socks w ! r))))"
  using assms by (simp add: ReadFull_def Let_def list_update_same_conv)

lemma ReadFull_short:
  assumes "length (incoming (socks w ! r)) < n"
  shows "snd (ReadFull w r n)
           = Inl (if rerr (socks w ! r) = EOF
                  then (if incoming (socks w ! r) = [] then EOF else ErrUnexpectedEOF)
                  else rerr (socks w ! r))"
  using assms by (simp add: ReadFull_def Let_def)

lemma message_from_scratch:
  assumes "vl \<le> 5" and "5 \<le> length inc"
  shows "take l (drop vl (take 5 inc))
           @ take (l - length (take l (drop vl (take 5 inc)))) (drop 5 inc)
         = take l (drop vl inc)"
proof (cases "l \<le> 5 - vl")
  case True
  then have "take l (drop vl (take 5 inc)) = take l (drop vl inc)"
    by (simp add: drop_take min_def)
  with True assms show ?thesis
    by simp
next
  case False
  have "take l (drop vl inc)
          = take (5 - vl) (drop vl inc) @ take (l - (5 - vl)) (drop (5 - vl) (drop vl inc))"
    using False by (metis le_add_diff_inverse nat_le_linear take_add)
  with False assms show ?thesis
    by (simp add: drop_take min_def)
qed

lemma readBlockReadResponse_ok:
  assumes r: "r < length (socks w)"
    and len: "5 \<le> length (incoming (socks w ! r))"
    and uv: "Uvarint (take 5 (incoming (socks w ! r))) = (l, vl)"
    and pos: "1 \<le> vl"
    and enough: "nat vl + unat l \<le> length (incoming (socks w ! r))"
  shows "readBlockReadResponse e w r
           = (w\<lparr>socks := (socks w)
                   [r := (socks w ! r)
                      \<lparr>incoming := drop (max 5 (nat vl + unat l)) (incoming (socks w ! r))\<rparr>]\<rparr>,
              unmarshal e (take (unat l) (drop (nat vl) (incoming (socks w ! r)))))"
proof -
  define inc where "inc = incoming (socks w ! r)"
  define w1 where "w1 = w\<lparr>socks := (socks w)[r := (socks w ! r)\<lparr>incoming := drop 5 inc\<rparr>]\<rparr>"
  define extra where "extra = take (unat l) (drop (nat vl) (take 5 inc))"
  from Uvarint_count [OF uv] len have vl5: "nat vl \<le> 5"
    by auto
  have len': "5 \<le> length inc" and enough': "nat vl + unat l \<le> length inc"
    using len enough by (simp_all add: inc_def)
  have rf1: "ReadFull w r MaxVarintLen32 = (w1, Inr (take 5 inc))"
    using ReadFull_enough [OF r, of 5] len by (simp add: MaxVarintLen32_def w1_def inc_def)
  have r1: "r < length (socks w1)" and inc1: "incoming (socks w1 ! r) = drop 5 inc"
    and s1: "socks w1 ! r = (socks w ! r)\<lparr>incoming := drop 5 inc\<rparr>"
    using r by (simp_all add: w1_def)
  have elen: "length extra = min (unat l) (5 - nat vl)"
    using len' by (simp add: extra_def min_def)
  have need: "unat l - length extra \<le> length (incoming (socks w1 ! r))"
    using enough' len' vl5 unfolding inc1 elen by (auto simp: min_def)
  have total: "(unat l - length extra) + 5 = max 5 (nat vl + unat l)"
    using vl5 unfolding elen by (auto simp: min_def max_def)
  have rf2: "ReadFull w1 r (unat l - length extra)
               = (w\<lparr>socks := (socks w)
                       [r := (socks w ! r)\<lparr>incoming := drop (max 5 (nat vl + unat l)) inc\<rparr>]\<rparr>,
                  Inr (take (unat l - length extra) (drop 5 inc)))"
    unfolding ReadFull_enough [OF r1 need] s1 inc1
    by (simp add: w1_def total)
  have msg: "extra @ take (unat l - length extra) (drop 5 inc) = take (unat l) (drop (nat vl) inc)"
    unfolding extra_def by (rule message_from_scratch [OF vl5 len'])
  have "readBlockReadResponse e w r
          = (w\<lparr>socks := (socks w)
                  [r := (socks w ! r)\<lparr>incoming := drop (max 5 (nat vl + unat l)) inc\<rparr>]\<rparr>,
             unmarshal e (extra @ take (unat l - length extra) (drop 5 inc)))"
    using pos
    by (simp add: readBlockReadResponse_def rf1 uv [folded inc_def] Let_def
                  rf2 [unfolded extra_def] extra_def del: length_take)
  then show ?thesis
    unfolding msg by (simp add: inc_def)
qed

text \<open>The response on the wire: the varint of the message's length, the message, and
  whatever follows.\<close>

lemma readBlockReadResponse_wire:
  assumes r: "r < length (socks w)"
    and len: "5 \<le> length (incoming (socks w ! r))"
    and wire: "incoming (socks w ! r) = PutUvarint (length msg) @ msg @ rest"
    and vl: "length (PutUvarint (length msg)) \<le> 5"
    and small: "length msg < 2 ^ 64"
  shows "readBlockReadResponse e w r
           = (w\<lparr>socks := (socks w)
                   [r := (socks w ! r)
                      \<lparr>incoming := drop (max 5 (length (PutUvarint (length msg)) + length msg))
                                       (incoming (socks w ! r))\<rparr>]\<rparr>,
              unmarshal e msg)"
proof -
  let ?p = "PutUvarint (length msg)"
  have "take 5 (incoming (socks w ! r)) = ?p @ take (5 - length ?p) (msg @ rest)"
    using vl by (simp add: wire)
  then have uv: "Uvarint (take 5 (incoming (socks w ! r)))
                   = (of_nat (length msg), int (length ?p))"
    using vl by (simp add: Uvarint_PutUvarint)
  have u: "unat (of_nat (length msg) :: 64 word) = length msg"
    using small by (simp add: unat_of_nat)
  have pos: "1 \<le> int (length ?p)"
    using PutUvarint_nonempty [of "length msg"] by (cases "PutUvarint (length msg)") simp_all
  have enough: "nat (int (length ?p)) + unat (of_nat (length msg) :: 64 word)
                  \<le> length (incoming (socks w ! r))"
    by (simp add: u wire)
  have "take (length msg) (drop (length ?p) (incoming (socks w ! r))) = msg"
    by (simp add: wire)
  with readBlockReadResponse_ok [OF r len uv pos enough, of e] show ?thesis
    by (simp add: u)
qed

subsection \<open>A stream failure in the middle of a read\<close>

lemma try_read_failure:
  assumes "stream_Read st n = (bs, Some x, st')" and "x \<noteq> EOF"
    and "recordFailure w (datanodes br) x = (w', df)"
  shows "try_read w br st n =
           (if bs \<noteq> []
            then Return w' (br\<lparr>stream := None, offset := offset br + of_nat (length bs),
                                datanodes := df\<rparr>) bs None
            else Continue w' (br\<lparr>stream := None, offset := offset br + of_nat (length bs),
                                  datanodes := df\<rparr>))"
  using assms by (simp add: try_read_def recordFailure_def)

text \<open>
  Claim C1. Take any pass through the retry loop of \<open>Read\<close> that reaches the read from
  the active stream \<open>st\<close>: the stream was active when the pass began, or
  \<open>connectNext\<close> has just installed it. If the stream's \<open>Read\<close> returns the bytes
  \<open>bs\<close> together with an error \<open>x\<close> other than \<open>EOF\<close>, then the reader's offset
  grows by the number of these bytes, the active stream is dropped and the failure is
  recorded; with at least one byte, \<open>Read\<close> returns these bytes and no error; with no
  byte, \<open>Read\<close> does not return here and the loop goes on from the new state. The
  second conjunct is the same for a call of \<open>Read\<close> on an open reader that is not at
  the end of its block.
\<close>

theorem Read_partial_on_stream_failure:
  assumes "(stream br = Some st \<and> w1 = w \<and> br1 = br)
           \<or> (stream br = None \<and> 0 < numRemaining (datanodes br)
               \<and> connectNext e w br = (w1, br1, None) \<and> stream br1 = Some st)"
    and "stream_Read st n = (bs, Some x, st')" and "x \<noteq> EOF"
    and "recordFailure w1 (datanodes br1) x = (w2, df)"
    and "br2 = br1\<lparr>stream := None, offset := offset br1 + of_nat (length bs),
                    datanodes := df\<rparr>"
  shows "read_loop e w br n = (if bs \<noteq> [] then (w2, br2, bs, None) else read_loop e w2 br2 n)
         \<and> (\<not> closed br \<and> offset br < NumBytes (B (block br)) \<longrightarrow>
              Read e w br n
                = (if bs \<noteq> [] then (w2, br2, bs, None) else read_loop e w2 br2 n))"
proof -
  have body: "loop_body e w br n = try_read w1 br1 st n"
    using assms(1) by (auto simp: loop_body_def)
  have cond: "stream br \<noteq> None \<or> 0 < numRemaining (datanodes br)"
    using assms(1) by auto
  have "read_loop e w br n
          = (if bs \<noteq> [] then (w2, br2, bs, None) else read_loop e w2 br2 n)"
    using cond assms(5)
    by (subst read_loop.simps)
       (simp add: body try_read_failure [OF assms(2) assms(3) assms(4)])
  then show ?thesis
    by (simp add: Read_open)
qed

lemma flaky_connect:
  "connectNext (ex_env flaky_nodes) ex_world (NewBlockReader ex_block 0) =
     (\<lparr>socks = [\<lparr>peer = ''a:1'', is_open = True, written = [ [0, 28, 81, 2, 0, 10] ],
                 incoming = [1, 2, 3, 4, 255], rerr = EOF, werr = None\<rparr>],
       failures = (\<lambda>a. 0)\<rparr>,
      (NewBlockReader ex_block 0)
        \<lparr>datanodes := \<lparr>df_datanodes = [''b:2''], currentDatanode = ''a:1'', df_err = None\<rparr>,
         stream := Some \<lparr>s_conn = 0, s_chunkSize = 4, s_table = IEEETable,
                         s_pending = [([1, 2, 3, 4], Some (ErrOther ''checksum mismatch''))]\<rparr>,
         conn := Some 0\<rparr>,
      None)"
  by (simp add: ex_simps model_simps flaky_nodes_def)

lemma corrupt_connect:
  "connectNext (ex_env corrupt_nodes) ex_world (NewBlockReader ex_block 0) =
     (one_sock [ [0, 28, 81, 2, 0, 10] ] [255],
      (NewBlockReader ex_block 0)
        \<lparr>datanodes := popped_a,
         stream := Some \<lparr>s_conn = 0, s_chunkSize = 4, s_table = IEEETable,
                         s_pending = [([], Some (ErrOther ''checksum mismatch''))]\<rparr>,
         conn := Some 0\<rparr>,
      None)"
  by (simp add: ex_simps model_simps corrupt_nodes_def one_sock_def popped_a_def)

lemma corrupt_Read:
  "snd (snd (Read (ex_env corrupt_nodes) ex_world (NewBlockReader ex_block 0) 10))
     = ([1, 2, 3, 4, 5, 6, 7, 8, 9, 10], None)"
  by (simp add: ex_simps model_simps corrupt_nodes_def)

theorem Read_partial_on_stream_failure_witness:
  "stream (NewBlockReader ex_block 0) = None
   \<and> 0 < numRemaining (datanodes (NewBlockReader ex_block 0))
   \<and> \<not> closed (NewBlockReader ex_block 0)
   \<and> offset (NewBlockReader ex_block 0) < NumBytes (B (block (NewBlockReader ex_block 0)))
   \<and> snd (snd (connectNext (ex_env flaky_nodes) ex_world (NewBlockReader ex_block 0))) = None
   \<and> stream_Read
        \<lparr>s_conn = 0, s_chunkSize = 4, s_table = IEEETable,
         s_pending = [([1, 2, 3, 4], Some (ErrOther ''checksum mismatch''))]\<rparr> 10
       = ([1, 2, 3, 4], Some (ErrOther ''checksum mismatch''),
          \<lparr>s_conn = 0, s_chunkSize = 4, s_table = IEEETable, s_pending = []\<rparr>)
   \<and> ErrOther ''checksum mismatch'' \<noteq> EOF
   \<and> fst (snd (snd (Read (ex_env flaky_nodes) ex_world (NewBlockReader ex_block 0) 10)))
       = [1, 2, 3, 4]
   \<and> snd (snd (snd (Read (ex_env flaky_nodes) ex_world (NewBlockReader ex_block 0) 10)))
       = None
   \<and> offset (fst (snd (Read (ex_env flaky_nodes) ex_world (NewBlockReader ex_block 0) 10)))
       = 4
   \<and> stream (fst (snd (Read (ex_env flaky_nodes) ex_world (NewBlockReader ex_block 0) 10)))
       = None
   \<and> lastError
        (datanodes (fst (snd (Read (ex_env flaky_nodes) ex_world (NewBlockReader ex_block 0) 10))))
       = Some (ErrOther ''checksum mismatch'')
   \<and> snd (snd (connectNext (ex_env corrupt_nodes) ex_world (NewBlockReader ex_block 0))) = None
   \<and> stream_Read
        \<lparr>s_conn = 0, s_chunkSize = 4, s_table = IEEETable,
         s_pending = [([], Some (ErrOther ''checksum mismatch''))]\<rparr> 10
       = ([], Some (ErrOther ''checksum mismatch''),
          \<lparr>s_conn = 0, s_chunkSize = 4, s_table = IEEETable, s_pending = []\<rparr>)
   \<and> Read (ex_env corrupt_nodes) ex_world (NewBlockReader ex_block 0) 10
       = read_loop (ex_env corrupt_nodes)
           (fst (recordFailure (one_sock [ [0, 28, 81, 2, 0, 10] ] [255]) popped_a
                   (ErrOther ''checksum mismatch'')))
           ((NewBlockReader ex_block 0)
              \<lparr>datanodes := snd (recordFailure (one_sock [ [0, 28, 81, 2, 0, 10] ] [255]) popped_a
                                   (ErrOther ''checksum mismatch'')),
               conn := Some 0\<rparr>) 10
   \<and> snd (snd (Read (ex_env corrupt_nodes) ex_world (NewBlockReader ex_block 0) 10))
       = ([1, 2, 3, 4, 5, 6, 7, 8, 9, 10], None)"
proof -
  let ?st = "\<lparr>s_conn = 0, s_chunkSize = 4, s_table = IEEETable,
              s_pending = [([1, 2, 3, 4], Some (ErrOther ''checksum mismatch''))]\<rparr>"
  let ?sc = "\<lparr>s_conn = 0, s_chunkSize = 4, s_table = IEEETable,
              s_pending = [([], Some (ErrOther ''checksum mismatch''))]\<rparr>"
  let ?br = "NewBlockReader ex_block 0"
  let ?cn = "connectNext (ex_env flaky_nodes) ex_world ?br"
  let ?cc = "connectNext (ex_env corrupt_nodes) ex_world ?br"
  have s: "stream ?br = None" and p: "0 < numRemaining (datanodes ?br)"
    by (simp_all add: ex_reader numRemaining_def)
  have n: "snd (snd ?cn) = None" "snd (snd ?cc) = None"
    by (simp_all add: flaky_connect corrupt_connect)
  have a: "(stream ?br = Some ?st \<and> fst ?cn = ex_world \<and> fst (snd ?cn) = ?br)
           \<or> (stream ?br = None \<and> 0 < numRemaining (datanodes ?br)
               \<and> ?cn = (fst ?cn, fst (snd ?cn), None) \<and> stream (fst (snd ?cn)) = Some ?st)"
    using s p by (simp add: flaky_connect)
  have ac: "(stream ?br = Some ?sc \<and> fst ?cc = ex_world \<and> fst (snd ?cc) = ?br)
            \<or> (stream ?br = None \<and> 0 < numRemaining (datanodes ?br)
                \<and> ?cc = (fst ?cc, fst (snd ?cc), None) \<and> stream (fst (snd ?cc)) = Some ?sc)"
    using s p by (simp add: corrupt_connect)
  have r: "stream_Read ?st 10
             = ([1, 2, 3, 4], Some (ErrOther ''checksum mismatch''), ?st\<lparr>s_pending := []\<rparr>)"
    and rc: "stream_Read ?sc 10
               = ([], Some (ErrOther ''checksum mismatch''), ?sc\<lparr>s_pending := []\<rparr>)"
    by (simp_all add: stream_Read_def)
  have x: "ErrOther ''checksum mismatch'' \<noteq> EOF"
    by simp
  have g: "\<not> closed ?br" "offset ?br < NumBytes (B (block ?br))"
    by (simp_all add: ex_reader ex_block_NumBytes)
  from Read_partial_on_stream_failure [OF a r x surjective_pairing refl] g
  have e1: "Read (ex_env flaky_nodes) ex_world ?br 10
          = (fst (recordFailure (fst ?cn) (datanodes (fst (snd ?cn))) (ErrOther ''checksum mismatch'')),
             (fst (snd ?cn))
               \<lparr>stream := None, offset := offset (fst (snd ?cn)) + of_nat (length [1, 2, 3, 4 :: byte]),
                datanodes := snd (recordFailure (fst ?cn) (datanodes (fst (snd ?cn)))
                                    (ErrOther ''checksum mismatch''))\<rparr>,
             [1, 2, 3, 4], None)"
    by simp
  have f: "fst (snd (snd (Read (ex_env flaky_nodes) ex_world ?br 10))) = [1, 2, 3, 4]"
    "snd (snd (snd (Read (ex_env flaky_nodes) ex_world ?br 10))) = None"
    "offset (fst (snd (Read (ex_env flaky_nodes) ex_world ?br 10))) = 4"
    "stream (fst (snd (Read (ex_env flaky_nodes) ex_world ?br 10))) = None"
    "lastError (datanodes (fst (snd (Read (ex_env flaky_nodes) ex_world ?br 10))))
       = Some (ErrOther ''checksum mismatch'')"
    unfolding e1 by (simp_all add: flaky_connect recordFailure_def lastError_def NewBlockReader_sel)
  from Read_partial_on_stream_failure [OF ac rc x surjective_pairing refl] g
  have c: "Read (ex_env corrupt_nodes) ex_world ?br 10
       = read_loop (ex_env corrupt_nodes)
           (fst (recordFailure (one_sock [ [0, 28, 81, 2, 0, 10] ] [255]) popped_a
                   (ErrOther ''checksum mismatch'')))
           (?br\<lparr>datanodes := snd (recordFailure (one_sock [ [0, 28, 81, 2, 0, 10] ] [255]) popped_a
                                   (ErrOther ''checksum mismatch'')),
                 conn := Some 0\<rparr>) 10"
    by (simp add: corrupt_connect) (simp add: ex_reader)
  from s p g n r rc [simplified] x f c corrupt_Read show ?thesis
    by simp
qed

subsection \<open>Reading when closed or at the end of the block\<close>

text \<open>
  Claim C2. A \<open>Read\<close> on a closed reader returns no bytes and the closed-pipe error,
  and leaves the world (sockets, failure cache) and the reader as they were: no network
  activity. A \<open>Read\<close> on an open reader whose offset has reached or passed the block's
  length returns no bytes and \<open>EOF\<close>, and does what \<open>Close\<close> does, so the reader is
  closed; every later \<open>Read\<close> returns no bytes and the closed-pipe error.
\<close>

theorem Read_closed_or_at_end:
  "(closed br \<longrightarrow> Read e w br n = (w, br, [], Some ErrClosedPipe))
   \<and> (\<not> closed br \<and> uint (NumBytes (B (block br))) \<le> sint (offset br) \<longrightarrow>
        (case Read e w br n of
           (w', br', bs, x) \<Rightarrow>
             bs = [] \<and> x = Some EOF \<and> closed br' \<and> (w', br') = Close w br
             \<and> (\<forall>e' m. Read e' w' br' m = (w', br', [], Some ErrClosedPipe))))"
  by (auto simp: Read_def Close_def word_le_of_uint_le_sint split: option.splits)

theorem Read_closed_or_at_end_witness:
  "closed (snd (Close ex_world (NewBlockReader ex_block 0)))
   \<and> Read (ex_env no_nodes) ex_world (snd (Close ex_world (NewBlockReader ex_block 0))) 4
       = (ex_world, snd (Close ex_world (NewBlockReader ex_block 0)), [], Some ErrClosedPipe)
   \<and> \<not> closed (NewBlockReader ex_block 10)
   \<and> uint (NumBytes (B (block (NewBlockReader ex_block 10))))
         \<le> sint (offset (NewBlockReader ex_block 10))
   \<and> fst (snd (snd (Read (ex_env no_nodes) ex_world (NewBlockReader ex_block 10) 4))) = []
   \<and> snd (snd (snd (Read (ex_env no_nodes) ex_world (NewBlockReader ex_block 10) 4))) = Some EOF
   \<and> closed (fst (snd (Read (ex_env no_nodes) ex_world (NewBlockReader ex_block 10) 4)))"
proof -
  have c: "closed (snd (Close ex_world (NewBlockReader ex_block 0)))"
    by (simp add: Close_def NewBlockReader_def)
  have o: "\<not> closed (NewBlockReader ex_block 10)
           \<and> uint (NumBytes (B (block (NewBlockReader ex_block 10))))
                \<le> sint (offset (NewBlockReader ex_block 10))"
    by (simp add: NewBlockReader_def ex_block_def)
  from c o
    Read_closed_or_at_end [of "snd (Close ex_world (NewBlockReader ex_block 0))"
      "ex_env no_nodes" ex_world 4]
    Read_closed_or_at_end [of "NewBlockReader ex_block 10" "ex_env no_nodes" ex_world 4]
  show ?thesis
    by (auto split: prod.splits)
qed

subsection \<open>Sockets left open\<close>

text \<open>
  Claim C3 (at most one socket is open at any time: the socket held before is closed
  when its stream is dropped or when a new connection is installed) does not hold of
  the code. \<open>Read\<close> drops a failed stream without closing its socket, and
  \<open>connectNext\<close> overwrites the reader's socket reference without closing the old
  one. On the example network the stream of \<open>a:1\<close> fails its first read, \<open>Read\<close>
  fails over to \<open>b:2\<close> and returns: both sockets are open, the reader refers to the
  second only, and a \<open>Close\<close> of the reader leaves the first one open.
\<close>

theorem stream_failure_leaks_socket:
  "map peer (socks (fst (Read (ex_env corrupt_nodes) ex_world (NewBlockReader ex_block 0) 10)))
     = [''a:1'', ''b:2'']
   \<and> map is_open (socks (fst (Read (ex_env corrupt_nodes) ex_world
                                (NewBlockReader ex_block 0) 10)))
       = [True, True]
   \<and> conn (fst (snd (Read (ex_env corrupt_nodes) ex_world (NewBlockReader ex_block 0) 10)))
       = Some 1
   \<and> map is_open
        (socks (fst (Close
           (fst (Read (ex_env corrupt_nodes) ex_world (NewBlockReader ex_block 0) 10))
           (fst (snd (Read (ex_env corrupt_nodes) ex_world (NewBlockReader ex_block 0) 10))))))
       = [True, False]"
  by (simp add: ex_simps model_simps corrupt_nodes_def)

text \<open>
  Claim C9 (when the dial succeeds and sending the request or parsing the response
  fails, the new socket is closed before the loop continues) does not hold of the code:
  \<open>connectNext\<close> returns the error of \<open>writeBlockReadRequest\<close> or of
  \<open>readBlockReadResponse\<close> and leaves the socket open, where its third failure path
  (the discard) closes it. On the example networks, \<open>a:1\<close> fails the write of the
  request, or closes in the middle of the response header; the socket to \<open>a:1\<close> is
  open when \<open>connectNext\<close> returns the error, and still open when \<open>Read\<close> has
  failed over to \<open>b:2\<close> and returned. After a failed discard the socket is closed.
\<close>

theorem failed_attempt_leaves_socket_open:
  "snd (snd (connectNext (ex_env wfail_nodes) ex_world (NewBlockReader ex_block 0)))
     = Some (ErrOther ''broken pipe'')
   \<and> map is_open (socks (fst (connectNext (ex_env wfail_nodes) ex_world
                                (NewBlockReader ex_block 0))))
       = [True]
   \<and> map is_open (socks (fst (Read (ex_env wfail_nodes) ex_world
                                (NewBlockReader ex_block 0) 10)))
       = [True, True]
   \<and> snd (snd (connectNext (ex_env trunc_nodes) ex_world (NewBlockReader ex_block 0)))
       = Some ErrUnexpectedEOF
   \<and> map is_open (socks (fst (connectNext (ex_env trunc_nodes) ex_world
                                (NewBlockReader ex_block 0))))
       = [True]
   \<and> map is_open (socks (fst (Read (ex_env trunc_nodes) ex_world
                                (NewBlockReader ex_block 0) 10)))
       = [True, True]
   \<and> map is_open (socks (fst (connectNext (ex_env short_nodes) ex_world
                                (NewBlockReader ex_block 6))))
       = [False]"
  by (simp add: ex_simps model_simps wfail_nodes_def trunc_nodes_def short_nodes_def)

subsection \<open>An unsupported checksum type\<close>

text \<open>
  Claim C4, as the code has it. When the response of a connection attempt carries a
  checksum type that is neither CRC-32 variant, \<open>connectNext\<close> fails with the
  unsupported-checksum error and installs no stream. \<open>Read\<close> treats this error as it
  treats every error of \<open>connectNext\<close>: it records the failure against the candidate
  and the retry loop goes on with the remaining candidates. The error reaches the
  caller only when no candidate remains, as the last recorded error.
\<close>

theorem unsupported_checksum_fails_over:
  assumes "stream br = None"
    and "df_next w (datanodes br) = Some (a, df)"
    and "dial e w a = Inr (w1, c)"
    and "writeBlockReadRequest e w1 (br\<lparr>datanodes := df\<rparr>) c = (w2, None)"
    and "readBlockReadResponse e w2 c = (w3, Inr resp)"
    and "ChecksumType resp \<noteq> CHECKSUM_CRC32 \<and> ChecksumType resp \<noteq> CHECKSUM_CRC32C"
    and "recordFailure w3 df (ErrUnsupportedChecksum (ChecksumType resp)) = (w4, df')"
  shows "connectNext e w br
           = (w3, br\<lparr>datanodes := df\<rparr>, Some (ErrUnsupportedChecksum (ChecksumType resp)))
         \<and> read_loop e w br n = read_loop e w4 (br\<lparr>datanodes := df'\<rparr>) n
         \<and> (numRemaining df = 0 \<longrightarrow>
              read_loop e w br n
                = (w4, br\<lparr>datanodes := df'\<rparr>, [],
                   Some (ErrUnsupportedChecksum (ChecksumType resp))))"
proof -
  have cn: "connectNext e w br
              = (w3, br\<lparr>datanodes := df\<rparr>, Some (ErrUnsupportedChecksum (ChecksumType resp)))"
    using assms(2-6) by (cases "ChecksumType resp") (simp_all add: connectNext_def)
  have pos: "0 < numRemaining (datanodes br)"
    using df_next_remaining [OF assms(2)] by simp
  have step: "read_loop e w br n = read_loop e w4 (br\<lparr>datanodes := df'\<rparr>) n"
    using read_loop_connect_failed [OF assms(1) pos cn, of w4 df' n] assms(7) by simp
  have "numRemaining df' = numRemaining df" and "lastError df' = Some (ErrUnsupportedChecksum (ChecksumType resp))"
    using assms(7) by (auto simp: recordFailure_def numRemaining_def lastError_def)
  then have "numRemaining df = 0 \<Longrightarrow>
      read_loop e w4 (br\<lparr>datanodes := df'\<rparr>) n
        = (w4, br\<lparr>datanodes := df'\<rparr>, [], Some (ErrUnsupportedChecksum (ChecksumType resp)))"
    using assms(1) by (subst read_loop.simps) (simp add: loop_exit_def)
  with cn step show ?thesis
    by simp
qed


lemma unsupported_steps:
  "df_next ex_world (datanodes (NewBlockReader ex_block 0)) = Some (''a:1'', popped_a)"
  "dial (ex_env unsupported_nodes) ex_world ''a:1''
     = Inr (one_sock [] [4, 0, 0, 4, 0, 1, 2, 3, 4, 5, 6, 7, 8, 9, 10], 0)"
  "writeBlockReadRequest (ex_env unsupported_nodes)
     (one_sock [] [4, 0, 0, 4, 0, 1, 2, 3, 4, 5, 6, 7, 8, 9, 10])
     ((NewBlockReader ex_block 0)\<lparr>datanodes := popped_a\<rparr>) 0
     = (one_sock [ [0, 0x1C, 0x51, 2, 0, 10] ] [4, 0, 0, 4, 0, 1, 2, 3, 4, 5, 6, 7, 8, 9, 10], None)"
  "readBlockReadResponse (ex_env unsupported_nodes)
     (one_sock [ [0, 0x1C, 0x51, 2, 0, 10] ] [4, 0, 0, 4, 0, 1, 2, 3, 4, 5, 6, 7, 8, 9, 10]) 0
     = (one_sock [ [0, 0x1C, 0x51, 2, 0, 10] ] [1, 2, 3, 4, 5, 6, 7, 8, 9, 10],
        Inr \<lparr>ChecksumType = CHECKSUM_OTHER 0, BytesPerChecksum = 4, ChunkOffset = 0\<rparr>)"
  by (simp_all add: ex_simps model_simps unsupported_nodes_def one_sock_def popped_a_def)

theorem unsupported_checksum_fails_over_witness:
  "stream (NewBlockReader ex_block 0) = None
   \<and> df_next ex_world (datanodes (NewBlockReader ex_block 0)) = Some (''a:1'', popped_a)
   \<and> dial (ex_env unsupported_nodes) ex_world ''a:1''
       = Inr (one_sock [] [4, 0, 0, 4, 0, 1, 2, 3, 4, 5, 6, 7, 8, 9, 10], 0)
   \<and> writeBlockReadRequest (ex_env unsupported_nodes)
        (one_sock [] [4, 0, 0, 4, 0, 1, 2, 3, 4, 5, 6, 7, 8, 9, 10])
        ((NewBlockReader ex_block 0)\<lparr>datanodes := popped_a\<rparr>) 0
       = (one_sock [ [0, 0x1C, 0x51, 2, 0, 10] ] [4, 0, 0, 4, 0, 1, 2, 3, 4, 5, 6, 7, 8, 9, 10], None)
   \<and> readBlockReadResponse (ex_env unsupported_nodes)
        (one_sock [ [0, 0x1C, 0x51, 2, 0, 10] ] [4, 0, 0, 4, 0, 1, 2, 3, 4, 5, 6, 7, 8, 9, 10]) 0
       = (one_sock [ [0, 0x1C, 0x51, 2, 0, 10] ] [1, 2, 3, 4, 5, 6, 7, 8, 9, 10],
          Inr \<lparr>ChecksumType = CHECKSUM_OTHER 0, BytesPerChecksum = 4, ChunkOffset = 0\<rparr>)
   \<and> connectNext (ex_env unsupported_nodes) ex_world (NewBlockReader ex_block 0)
       = (one_sock [ [0, 0x1C, 0x51, 2, 0, 10] ] [1, 2, 3, 4, 5, 6, 7, 8, 9, 10],
          (NewBlockReader ex_block 0)\<lparr>datanodes := popped_a\<rparr>,
          Some (ErrUnsupportedChecksum (CHECKSUM_OTHER 0)))
   \<and> read_loop (ex_env unsupported_nodes) ex_world (NewBlockReader ex_block 0) 10
       = read_loop (ex_env unsupported_nodes)
           (fst (recordFailure (one_sock [ [0, 0x1C, 0x51, 2, 0, 10] ] [1, 2, 3, 4, 5, 6, 7, 8, 9, 10])
                   popped_a (ErrUnsupportedChecksum (CHECKSUM_OTHER 0))))
           ((NewBlockReader ex_block 0)
              \<lparr>datanodes :=
                 snd (recordFailure (one_sock [ [0, 0x1C, 0x51, 2, 0, 10] ] [1, 2, 3, 4, 5, 6, 7, 8, 9, 10])
                        popped_a (ErrUnsupportedChecksum (CHECKSUM_OTHER 0)))\<rparr>) 10"
proof -
  have s: "stream (NewBlockReader ex_block 0) = None"
    by (simp add: ex_reader)
  have t: "ChecksumType \<lparr>ChecksumType = CHECKSUM_OTHER 0, BytesPerChecksum = 4, ChunkOffset = 0\<rparr>
             \<noteq> CHECKSUM_CRC32
           \<and> ChecksumType \<lparr>ChecksumType = CHECKSUM_OTHER 0, BytesPerChecksum = 4, ChunkOffset = 0\<rparr>
             \<noteq> CHECKSUM_CRC32C"
    by simp
  from unsupported_checksum_fails_over
         [OF s unsupported_steps(1) unsupported_steps(2) unsupported_steps(3)
             unsupported_steps(4) t surjective_pairing, of 10]
  show ?thesis
    using s unsupported_steps by simp
qed

lemma unsupported_Read:
  "map peer (socks (fst (Read (ex_env unsupported_nodes) ex_world (NewBlockReader ex_block 0) 10)))
     = [''a:1'', ''b:2'']"
  "snd (snd (Read (ex_env unsupported_nodes) ex_world (NewBlockReader ex_block 0) 10))
     = ([1, 2, 3, 4, 5, 6, 7, 8, 9, 10], None)"
  by (simp_all add: ex_simps model_simps unsupported_nodes_def)

text \<open>
  The claim as the spec states it (the error is fatal, the session does not fail over)
  does not hold: on the example network the attempt on \<open>a:1\<close> fails with the
  unsupported-checksum error, and the same \<open>Read\<close> then dials \<open>b:2\<close> and returns
  its ten bytes without error.
\<close>

theorem unsupported_checksum_counterexample:
  "snd (snd (connectNext (ex_env unsupported_nodes) ex_world (NewBlockReader ex_block 0)))
     = Some (ErrUnsupportedChecksum (CHECKSUM_OTHER 0))
   \<and> map peer (socks (fst (Read (ex_env unsupported_nodes) ex_world
                              (NewBlockReader ex_block 0) 10)))
       = [''a:1'', ''b:2'']
   \<and> snd (snd (Read (ex_env unsupported_nodes) ex_world (NewBlockReader ex_block 0) 10))
       = ([1, 2, 3, 4, 5, 6, 7, 8, 9, 10], None)"
  by (simp add: unsupported_Read) (simp add: ex_simps model_simps unsupported_nodes_def)

subsection \<open>Discarding to the requested offset\<close>

















subsection \<open>The length prefix of the response\<close>

text \<open>
  Claim C6. \<open>readBlockReadResponse\<close> first reads a scratch buffer of
  \<open>MaxVarintLen32\<close> bytes, the longest varint of a 32-bit length, and decodes the
  length prefix from it. When the decoder consumes no byte of the scratch buffer, the
  result is the unexpected-end-of-stream error. When the bytes on the socket are the
  varint of a message's length, the message, and whatever follows, the result is the
  decoding of exactly that message: the message is the scratch bytes after the varint
  followed by the next bytes of the socket after the scratch buffer, none read twice,
  and what is left unread on the socket is what followed the message.
\<close>

theorem readBlockReadResponse_scratch:
  assumes "r < length (socks w)"
    and "MaxVarintLen32 \<le> length (incoming (socks w ! r))"
  shows "(snd (Uvarint (take MaxVarintLen32 (incoming (socks w ! r)))) < 1 \<longrightarrow>
            snd (readBlockReadResponse e w r) = Inl ErrUnexpectedEOF)
         \<and> (\<forall>msg rest.
               incoming (socks w ! r) = PutUvarint (length msg) @ msg @ rest
               \<and> length msg < 2 ^ 32 \<longrightarrow>
                 length (PutUvarint (length msg)) \<le> MaxVarintLen32
                 \<and> snd (readBlockReadResponse e w r) = unmarshal e msg
                 \<and> (MaxVarintLen32 \<le> length (PutUvarint (length msg)) + length msg \<longrightarrow>
                      msg = drop (length (PutUvarint (length msg)))
                              (take MaxVarintLen32 (incoming (socks w ! r)))
                            @ take (length (PutUvarint (length msg)) + length msg - MaxVarintLen32)
                                (drop MaxVarintLen32 (incoming (socks w ! r)))
                      \<and> incoming (socks (fst (readBlockReadResponse e w r)) ! r) = rest))"
proof (intro conjI impI allI)
  assume "snd (Uvarint (take MaxVarintLen32 (incoming (socks w ! r)))) < 1"
  then show "snd (readBlockReadResponse e w r) = Inl ErrUnexpectedEOF"
    using ReadFull_enough [OF assms(1), of MaxVarintLen32] assms(2)
    by (cases "Uvarint (take MaxVarintLen32 (incoming (socks w ! r)))")
       (simp add: readBlockReadResponse_def)
next
  fix msg rest
  assume a: "incoming (socks w ! r) = PutUvarint (length msg) @ msg @ rest \<and> length msg < 2 ^ 32"
  let ?p = "PutUvarint (length msg)"
  have "length msg < 2 ^ (7 * Suc 4)"
    using a by (auto intro: less_trans)
  from length_PutUvarint [OF this] show vl: "length ?p \<le> MaxVarintLen32"
    by (simp add: MaxVarintLen32_def)
  have small: "length msg < 2 ^ 64"
    using a by (auto intro: less_trans)
  note wire = readBlockReadResponse_wire
                [OF assms(1) assms(2) [unfolded MaxVarintLen32_def] conjunct1 [OF a]
                    vl [unfolded MaxVarintLen32_def] small, of e]
  show "snd (readBlockReadResponse e w r) = unmarshal e msg"
    by (simp add: wire)
  assume big: "MaxVarintLen32 \<le> length ?p + length msg"
  then show "incoming (socks (fst (readBlockReadResponse e w r)) ! r) = rest"
    using assms(1) a by (simp add: wire MaxVarintLen32_def max_def)
  from big vl
  show "msg = drop (length ?p) (take MaxVarintLen32 (incoming (socks w ! r)))
              @ take (length ?p + length msg - MaxVarintLen32)
                  (drop MaxVarintLen32 (incoming (socks w ! r)))"
    using message_from_scratch [of "length ?p" "incoming (socks w ! r)" "length msg"]
      assms(2) a
    by (simp add: MaxVarintLen32_def min_def)
qed


theorem readBlockReadResponse_scratch_witness:
  "0 < length (socks (one_sock [] [0x80, 0x80, 0x80, 0x80, 0x80, 1]))
   \<and> MaxVarintLen32 \<le> length (incoming (socks (one_sock [] [0x80, 0x80, 0x80, 0x80, 0x80, 1]) ! 0))
   \<and> snd (Uvarint (take MaxVarintLen32
                     (incoming (socks (one_sock [] [0x80, 0x80, 0x80, 0x80, 0x80, 1]) ! 0)))) < 1
   \<and> snd (readBlockReadResponse (ex_env no_nodes)
             (one_sock [] [0x80, 0x80, 0x80, 0x80, 0x80, 1]) 0) = Inl ErrUnexpectedEOF
   \<and> 0 < length (socks (one_sock [] [4, 0, 1, 4, 0, 1, 2, 3]))
   \<and> MaxVarintLen32 \<le> length (incoming (socks (one_sock [] [4, 0, 1, 4, 0, 1, 2, 3]) ! 0))
   \<and> incoming (socks (one_sock [] [4, 0, 1, 4, 0, 1, 2, 3]) ! 0)
       = PutUvarint (length [0, 1, 4, 0 :: byte]) @ [0, 1, 4, 0] @ [1, 2, 3]
   \<and> length [0, 1, 4, 0 :: byte] < 2 ^ 32
   \<and> MaxVarintLen32 \<le> length (PutUvarint (length [0, 1, 4, 0 :: byte])) + length [0, 1, 4, 0 :: byte]
   \<and> snd (readBlockReadResponse (ex_env no_nodes) (one_sock [] [4, 0, 1, 4, 0, 1, 2, 3]) 0)
       = Inr \<lparr>ChecksumType = CHECKSUM_CRC32, BytesPerChecksum = 4, ChunkOffset = 0\<rparr>
   \<and> incoming (socks (fst (readBlockReadResponse (ex_env no_nodes)
                              (one_sock [] [4, 0, 1, 4, 0, 1, 2, 3]) 0)) ! 0)
       = [1, 2, 3]"
proof -
  let ?bad = "one_sock [] [0x80, 0x80, 0x80, 0x80, 0x80, 1]"
  let ?good = "one_sock [] [4, 0, 1, 4, 0, 1, 2, 3]"
  have b: "0 < length (socks ?bad)" "MaxVarintLen32 \<le> length (incoming (socks ?bad ! 0))"
    by (simp_all add: one_sock_def MaxVarintLen32_def)
  have z: "snd (Uvarint (take MaxVarintLen32 (incoming (socks ?bad ! 0)))) < 1"
    by (simp add: one_sock_def MaxVarintLen32_def MaxVarintLen64_def Uvarint_def)
  have g: "0 < length (socks ?good)" "MaxVarintLen32 \<le> length (incoming (socks ?good ! 0))"
    by (simp_all add: one_sock_def MaxVarintLen32_def)
  have m: "incoming (socks ?good ! 0)
             = PutUvarint (length [0, 1, 4, 0 :: byte]) @ [0, 1, 4, 0] @ [1, 2, 3]
           \<and> length [0, 1, 4, 0 :: byte] < 2 ^ 32"
    by (simp add: one_sock_def PutUvarint.simps)
  have l: "MaxVarintLen32
             \<le> length (PutUvarint (length [0, 1, 4, 0 :: byte])) + length [0, 1, 4, 0 :: byte]"
    by (simp add: PutUvarint.simps MaxVarintLen32_def)
  from readBlockReadResponse_scratch [OF b, of "ex_env no_nodes"] z
  have "snd (readBlockReadResponse (ex_env no_nodes) ?bad 0) = Inl ErrUnexpectedEOF"
    by simp
  moreover
  from readBlockReadResponse_scratch [OF g, of "ex_env no_nodes", THEN conjunct2, rule_format, OF m] l
  have "snd (readBlockReadResponse (ex_env no_nodes) ?good 0) = unmarshal (ex_env no_nodes) [0, 1, 4, 0]
        \<and> incoming (socks (fst (readBlockReadResponse (ex_env no_nodes) ?good 0)) ! 0) = [1, 2, 3]"
    by simp
  ultimately show ?thesis
    using b z g m l by (simp add: ex_env_def ex_unmarshal_def)
qed

text \<open>
  Claim C10, as the code has it. \<open>readBlockReadResponse\<close> reads \<open>MaxVarintLen32\<close>
  bytes before it decodes anything. When the socket delivers fewer bytes than that
  before it ends (so also when they are a complete, well-formed response shorter than
  five bytes with nothing after it), the result is an I/O error: \<open>EOF\<close> when nothing
  arrived, the unexpected-end-of-stream error when the peer closed, the socket's own
  error otherwise. When a well-formed response shorter than five bytes is followed by
  enough bytes to fill the scratch buffer, the response is decoded, and the bytes of
  the scratch buffer after the end of the message are gone: what is left unread on the
  socket is what followed the message without its first bytes.
\<close>

theorem readBlockReadResponse_short:
  assumes "r < length (socks w)"
  shows "(length (incoming (socks w ! r)) < MaxVarintLen32 \<longrightarrow>
            snd (readBlockReadResponse e w r)
              = Inl (if rerr (socks w ! r) = EOF
                     then (if incoming (socks w ! r) = [] then EOF else ErrUnexpectedEOF)
                     else rerr (socks w ! r)))
         \<and> (\<forall>msg rest.
               incoming (socks w ! r) = PutUvarint (length msg) @ msg @ rest
               \<and> length (PutUvarint (length msg)) + length msg < MaxVarintLen32
               \<and> MaxVarintLen32 \<le> length (incoming (socks w ! r)) \<longrightarrow>
                 snd (readBlockReadResponse e w r) = unmarshal e msg
                 \<and> incoming (socks (fst (readBlockReadResponse e w r)) ! r)
                     = drop (MaxVarintLen32 - (length (PutUvarint (length msg)) + length msg)) rest)"
proof (intro conjI impI allI)
  assume "length (incoming (socks w ! r)) < MaxVarintLen32"
  from ReadFull_short [OF this]
  show "snd (readBlockReadResponse e w r)
          = Inl (if rerr (socks w ! r) = EOF
                 then (if incoming (socks w ! r) = [] then EOF else ErrUnexpectedEOF)
                 else rerr (socks w ! r))"
    by (cases "ReadFull w r MaxVarintLen32") (simp add: readBlockReadResponse_def)
next
  fix msg rest :: "byte list"
  let ?p = "PutUvarint (length msg)"
  assume a: "incoming (socks w ! r) = ?p @ msg @ rest
             \<and> length ?p + length msg < MaxVarintLen32
             \<and> MaxVarintLen32 \<le> length (incoming (socks w ! r))"
  note a' = a [unfolded MaxVarintLen32_def]
  note len = a' [THEN conjunct2, THEN conjunct2]
  from a' have vl: "length ?p \<le> 5" and small: "length msg < 2 ^ 64"
    by (auto intro: less_trans)
  note wire = readBlockReadResponse_wire [OF assms len conjunct1 [OF a] vl small, of e]
  show "snd (readBlockReadResponse e w r) = unmarshal e msg"
    by (simp add: wire)
  show "incoming (socks (fst (readBlockReadResponse e w r)) ! r)
          = drop (MaxVarintLen32 - (length ?p + length msg)) rest"
    using assms a by (auto simp: wire MaxVarintLen32_def max_def)
qed

theorem readBlockReadResponse_short_witness:
  "0 < length (socks (one_sock [] [1, 1]))
   \<and> length (incoming (socks (one_sock [] [1, 1]) ! 0)) < MaxVarintLen32
   \<and> incoming (socks (one_sock [] [1, 1]) ! 0) = PutUvarint (length [1 :: byte]) @ [1]
   \<and> snd (readBlockReadResponse short_env (one_sock [] [1, 1]) 0) = Inl ErrUnexpectedEOF
   \<and> 0 < length (socks (one_sock [] [1, 1, 0xA, 0xB, 0xC, 0xD]))
   \<and> incoming (socks (one_sock [] [1, 1, 0xA, 0xB, 0xC, 0xD]) ! 0)
       = PutUvarint (length [1 :: byte]) @ [1] @ [0xA, 0xB, 0xC, 0xD]
   \<and> length (PutUvarint (length [1 :: byte])) + length [1 :: byte] < MaxVarintLen32
   \<and> MaxVarintLen32 \<le> length (incoming (socks (one_sock [] [1, 1, 0xA, 0xB, 0xC, 0xD]) ! 0))
   \<and> snd (readBlockReadResponse short_env (one_sock [] [1, 1, 0xA, 0xB, 0xC, 0xD]) 0)
       = Inr \<lparr>ChecksumType = CHECKSUM_CRC32, BytesPerChecksum = 512, ChunkOffset = 0\<rparr>
   \<and> incoming (socks (fst (readBlockReadResponse short_env
                              (one_sock [] [1, 1, 0xA, 0xB, 0xC, 0xD]) 0)) ! 0)
       = [0xD]"
proof -
  let ?alone = "one_sock [] [1, 1]"
  let ?more = "one_sock [] [1, 1, 0xA, 0xB, 0xC, 0xD]"
  have a: "0 < length (socks ?alone)"
    and al: "length (incoming (socks ?alone ! 0)) < MaxVarintLen32"
    and aw: "incoming (socks ?alone ! 0) = PutUvarint (length [1 :: byte]) @ [1]"
    by (simp_all add: one_sock_def MaxVarintLen32_def PutUvarint.simps)
  have m: "0 < length (socks ?more)"
    and mw: "incoming (socks ?more ! 0) = PutUvarint (length [1 :: byte]) @ [1] @ [0xA, 0xB, 0xC, 0xD]
             \<and> length (PutUvarint (length [1 :: byte])) + length [1 :: byte] < MaxVarintLen32
             \<and> MaxVarintLen32 \<le> length (incoming (socks ?more ! 0))"
    by (simp_all add: one_sock_def MaxVarintLen32_def PutUvarint.simps)
  from readBlockReadResponse_short [OF a, of short_env] al
  have r1: "snd (readBlockReadResponse short_env ?alone 0) = Inl ErrUnexpectedEOF"
    by (simp add: one_sock_def)
  from readBlockReadResponse_short [OF m, of short_env, THEN conjunct2, rule_format, OF mw]
  have "snd (readBlockReadResponse short_env ?more 0) = unmarshal short_env [1]
        \<and> incoming (socks (fst (readBlockReadResponse short_env ?more 0)) ! 0) = [0xD]"
    by (simp add: PutUvarint.simps MaxVarintLen32_def)
  then have r2: "snd (readBlockReadResponse short_env ?more 0)
                   = Inr \<lparr>ChecksumType = CHECKSUM_CRC32, BytesPerChecksum = 512, ChunkOffset = 0\<rparr>"
    and r3: "incoming (socks (fst (readBlockReadResponse short_env ?more 0)) ! 0) = [0xD]"
    by (simp_all add: short_env_def short_unmarshal_def)
  from a al aw r1 m mw r2 r3 show ?thesis
    by blast
qed

text \<open>
  The claim as stated (parsing fails for every response whose varint and message
  together are shorter than five bytes) does not hold: with the one-byte codec, the
  response of two bytes (the varint 1 and the message byte 1) followed by four bytes
  of data is well-formed and shorter than five bytes, and it is parsed without error.
\<close>

theorem short_response_counterexample:
  "incoming (socks (one_sock [] [1, 1, 0xA, 0xB, 0xC, 0xD]) ! 0)
     = PutUvarint (length [1 :: byte]) @ [1] @ [0xA, 0xB, 0xC, 0xD]
   \<and> length (PutUvarint (length [1 :: byte])) + length [1 :: byte] < MaxVarintLen32
   \<and> short_unmarshal [1]
       = Inr \<lparr>ChecksumType = CHECKSUM_CRC32, BytesPerChecksum = 512, ChunkOffset = 0\<rparr>
   \<and> snd (readBlockReadResponse short_env (one_sock [] [1, 1, 0xA, 0xB, 0xC, 0xD]) 0)
       = Inr \<lparr>ChecksumType = CHECKSUM_CRC32, BytesPerChecksum = 512, ChunkOffset = 0\<rparr>"
  by (simp add: one_sock_def short_env_def short_unmarshal_def ex_env_def PutUvarint.simps
        readBlockReadResponse_def ReadFull_def MaxVarintLen32_def MaxVarintLen64_def
        Uvarint_def)

subsection \<open>The request\<close>

lemma conn_Write_written:
  "c < length (socks w)
     \<Longrightarrow> written (socks (fst (conn_Write w c bs)) ! c) = written (socks w ! c) @ [bs]"
  by (simp add: conn_Write_def Let_def)

text \<open>
  Claim C7. The request message that \<open>writeBlockReadRequest\<close> builds has the reader's
  current offset as its offset and the block's length minus that offset as its length
  (a subtraction of unsigned 64-bit numbers; it is the difference of the two numbers
  whenever the offset is below the block's length, as it is where \<open>Read\<close> connects).
  When the message cannot be serialized nothing is written. Otherwise exactly one
  \<open>Write\<close> is made on the socket, and its bytes are 0x00, the protocol version, the op
  code 0x51, the varint of the serialized message's length (the decoder reads that
  length back from it), and the serialized message, in this order.
\<close>

theorem writeBlockReadRequest_bytes:
  assumes "m = newBlockReadOp e (block br) (offset br) (NumBytes (B (block br)) - offset br)"
  shows "op_Offset m = offset br
         \<and> op_Len m = NumBytes (B (block br)) - offset br
         \<and> (offset br < NumBytes (B (block br)) \<longrightarrow>
              unat (op_Len m) = unat (NumBytes (B (block br))) - unat (offset br))
         \<and> (\<forall>x. marshal e m = Inl x \<longrightarrow> writeBlockReadRequest e w br c = (w, Some x))
         \<and> (\<forall>msg. marshal e m = Inr msg \<longrightarrow>
               writeBlockReadRequest e w br c
                 = conn_Write w c
                     ([0x00, dataTransferVersion e, 0x51] @ PutUvarint (length msg) @ msg)
               \<and> (length msg < 2 ^ 63 \<longrightarrow>
                    Uvarint (PutUvarint (length msg) @ msg)
                      = (of_nat (length msg), int (length (PutUvarint (length msg)))))
               \<and> (c < length (socks w) \<longrightarrow>
                    written (socks (fst (writeBlockReadRequest e w br c)) ! c)
                      = written (socks w ! c)
                        @ [ [0x00, dataTransferVersion e, 0x51] @ PutUvarint (length msg) @ msg]))"
proof (intro conjI impI allI)
  show "op_Offset m = offset br" and "op_Len m = NumBytes (B (block br)) - offset br"
    by (simp_all add: assms newBlockReadOp_def)
  show "unat (op_Len m) = unat (NumBytes (B (block br))) - unat (offset br)"
    if "offset br < NumBytes (B (block br))"
    using that by (simp add: assms newBlockReadOp_def unat_sub)
  show "writeBlockReadRequest e w br c = (w, Some x)" if "marshal e m = Inl x" for x
    using that by (simp add: writeBlockReadRequest_def makeDelimitedMsg_def assms [symmetric])
  fix msg
  assume ok: "marshal e m = Inr msg"
  then show eq: "writeBlockReadRequest e w br c
                   = conn_Write w c
                       ([0x00, dataTransferVersion e, 0x51] @ PutUvarint (length msg) @ msg)"
    by (simp add: writeBlockReadRequest_def makeDelimitedMsg_def assms [symmetric] readBlockOp_def)
  show "written (socks (fst (writeBlockReadRequest e w br c)) ! c)
          = written (socks w ! c)
            @ [ [0x00, dataTransferVersion e, 0x51] @ PutUvarint (length msg) @ msg]"
    if "c < length (socks w)"
    unfolding eq by (rule conn_Write_written [OF that])
  show "Uvarint (PutUvarint (length msg) @ msg)
          = (of_nat (length msg), int (length (PutUvarint (length msg))))"
    if "length msg < 2 ^ 63"
  proof -
    from that have "length msg < 2 ^ (7 * Suc 8)"
      by simp
    from length_PutUvarint [OF this] show ?thesis
      by (intro Uvarint_PutUvarint) simp
  qed
qed


theorem writeBlockReadRequest_bytes_witness:
  "offset (NewBlockReader ex_block 4) < NumBytes (B (block (NewBlockReader ex_block 4)))
   \<and> marshal (ex_env no_nodes)
        (newBlockReadOp (ex_env no_nodes) (block (NewBlockReader ex_block 4))
           (offset (NewBlockReader ex_block 4))
           (NumBytes (B (block (NewBlockReader ex_block 4))) - offset (NewBlockReader ex_block 4)))
       = Inr [4, 6]
   \<and> length [4, 6 :: byte] < 2 ^ 63
   \<and> 0 < length (socks (one_sock [] []))
   \<and> unat (op_Len
        (newBlockReadOp (ex_env no_nodes) (block (NewBlockReader ex_block 4))
           (offset (NewBlockReader ex_block 4))
           (NumBytes (B (block (NewBlockReader ex_block 4))) - offset (NewBlockReader ex_block 4))))
       = 10 - 4
   \<and> Uvarint (PutUvarint (length [4, 6 :: byte]) @ [4, 6]) = (2, 1)
   \<and> written (socks (fst (writeBlockReadRequest (ex_env no_nodes) (one_sock [] [])
                              (NewBlockReader ex_block 4) 0)) ! 0)
       = [ [0x00, 0x1C, 0x51, 2, 4, 6] ]"
proof -
  let ?br = "NewBlockReader ex_block 4"
  let ?e = "ex_env no_nodes"
  let ?m = "newBlockReadOp ?e (block ?br) (offset ?br) (NumBytes (B (block ?br)) - offset ?br)"
  have o: "offset ?br < NumBytes (B (block ?br))"
    by (simp add: ex_reader ex_block_NumBytes)
  have k: "marshal ?e ?m = Inr [4, 6]"
    by (simp add: ex_reader ex_block_NumBytes ex_env_def ex_marshal_def newBlockReadOp_def)
  have l: "length [4, 6 :: byte] < 2 ^ 63"
    by simp
  have c: "0 < length (socks (one_sock [] []))"
    by (simp add: one_sock_def)
  note t = writeBlockReadRequest_bytes [OF refl, of ?e ?br "one_sock [] []" 0]
  from t o have "unat (op_Len ?m) = unat (NumBytes (B (block ?br))) - unat (offset ?br)"
    by blast
  then have r1: "unat (op_Len ?m) = 10 - 4"
    by (simp add: ex_reader ex_block_NumBytes)
  from t k l have "Uvarint (PutUvarint (length [4, 6 :: byte]) @ [4, 6])
                     = (of_nat (length [4, 6 :: byte]), int (length (PutUvarint (length [4, 6 :: byte]))))"
    by blast
  then have r2: "Uvarint (PutUvarint (length [4, 6 :: byte]) @ [4, 6]) = (2, 1)"
    by (simp add: PutUvarint.simps)
  from t k c have "written (socks (fst (writeBlockReadRequest ?e (one_sock [] []) ?br 0)) ! 0)
                     = written (socks (one_sock [] []) ! 0)
                       @ [ [0x00, dataTransferVersion ?e, 0x51] @ PutUvarint (length [4, 6 :: byte]) @ [4, 6] ]"
    by blast
  then have r3: "written (socks (fst (writeBlockReadRequest ?e (one_sock [] []) ?br 0)) ! 0)
                   = [ [0x00, 0x1C, 0x51, 2, 4, 6] ]"
    by (simp add: one_sock_def ex_env_def PutUvarint.simps)
  from o k l c r1 r2 r3 show ?thesis
    by blast
qed

subsection \<open>Leaving the retry loop\<close>

lemma try_read_Return:
  "try_read w br st n = Return w' br' bs r \<Longrightarrow> stream br' = None \<Longrightarrow> bs \<noteq> []"
  by (auto simp: try_read_def Let_def split: prod.splits if_splits)

lemma loop_body_Return:
  assumes "loop_body e w br n = Return w' br' bs r"
    and "stream br \<noteq> None \<or> 0 < numRemaining (datanodes br)"
    and "stream br' = None"
  shows "bs \<noteq> []"
proof (cases "stream br")
  case (Some st)
  with assms(1) have "try_read w br st n = Return w' br' bs r"
    by (simp add: loop_body_def)
  then show ?thesis
    using assms(3) by (rule try_read_Return)
next
  case None
  with assms(2) obtain a df where nx: "df_next w (datanodes br) = Some (a, df)"
    using df_next_None [of w "datanodes br"] by (cases "df_next w (datanodes br)") auto
  obtain w1 br1 x where cn: "connectNext e w br = (w1, br1, x)"
    by (cases "connectNext e w br") auto
  note fr = connectNext_frame [OF cn nx]
  show ?thesis
  proof (cases x)
    case (Some y)
    with assms(1) None cn show ?thesis
      by (simp add: loop_body_def split: prod.splits)
  next
    case xNone: None
    with fr obtain st where st: "stream br1 = Some st"
      by auto
    with assms(1) None cn xNone have "try_read w1 br1 st n = Return w' br' bs r"
      by (simp add: loop_body_def)
    then show ?thesis
      using assms(3) by (rule try_read_Return)
  qed
qed

lemma read_loop_streamless:
  "read_loop e w br n = (w', br', [], r) \<Longrightarrow> stream br' = None
     \<Longrightarrow> numRemaining (datanodes br') = 0 \<and> r = Some (loop_exit br')"
proof (induction e w br n rule: read_loop.induct)
  case (1 e w br n)
  show ?case
  proof (cases "stream br \<noteq> None \<or> 0 < numRemaining (datanodes br)")
    case False
    with "1.prems" show ?thesis
      by (auto simp: read_loop.simps [of e w br n])
  next
    case True
    show ?thesis
    proof (cases "loop_body e w br n")
      case (Return w1 br1 bs1 x1)
      with True "1.prems"(1) have "(w1, br1, bs1, x1) = (w', br', [], r)"
        by (simp add: read_loop.simps [of e w br n])
      with Return have "loop_body e w br n = Return w' br' [] r"
        by simp
      from loop_body_Return [OF this True "1.prems"(2)] show ?thesis
        by simp
    next
      case (Continue w1 br1)
      with True "1.prems"(1) have "read_loop e w1 br1 n = (w', br', [], r)"
        by (simp add: read_loop.simps [of e w br n])
      then show ?thesis
        using "1.prems"(2) by (rule "1.IH" [OF True Continue])
    qed
  qed
qed

text \<open>
  Claim C8. On an open reader that is not at the end of its block: when \<open>Read\<close> finds
  no active stream and no remaining candidate, it returns no bytes and the selector's
  last recorded error, or the no-datanodes error when none was recorded, and changes
  nothing. And every return of \<open>Read\<close> with no bytes and no active stream is this
  exit of the loop, however many passes came before it: no candidate remains, and the
  error returned is the last one recorded, or the no-datanodes error.
\<close>

theorem Read_exhausted:
  assumes "\<not> closed br" and "offset br < NumBytes (B (block br))"
  shows "(stream br = None \<and> numRemaining (datanodes br) = 0 \<longrightarrow>
            Read e w br n
              = (w, br, [],
                 Some (case lastError (datanodes br) of
                         None \<Rightarrow> ErrNoDatanodes | Some x \<Rightarrow> x)))
         \<and> (Read e w br n = (w', br', [], r) \<and> stream br' = None \<longrightarrow>
              numRemaining (datanodes br') = 0
              \<and> r = Some (case lastError (datanodes br') of
                             None \<Rightarrow> ErrNoDatanodes | Some x \<Rightarrow> x))"
  using read_loop_streamless [of e w br n w' br' r]
  by (simp add: Read_open [OF assms] read_loop.simps [of e w br n] loop_exit_def)

lemma refused_Read:
  "Read (ex_env no_nodes) ex_world (NewBlockReader ex_block 0) 10 =
     (ex_world\<lparr>failures := (\<lambda>a. 0)(''a:1'' := Suc 0, ''b:2'' := Suc 0)\<rparr>,
      (NewBlockReader ex_block 0)
        \<lparr>datanodes := \<lparr>df_datanodes = [], currentDatanode = ''b:2'',
                        df_err = Some (ErrOther ''connection refused'')\<rparr>\<rparr>,
      [], Some (ErrOther ''connection refused''))"
  by (simp add: ex_simps model_simps no_nodes_def)

theorem Read_exhausted_witness:
  "\<not> closed (NewBlockReader ex_block 0)
   \<and> offset (NewBlockReader ex_block 0) < NumBytes (B (block (NewBlockReader ex_block 0)))
   \<and> stream (fst (snd (Read (ex_env no_nodes) ex_world (NewBlockReader ex_block 0) 10))) = None
   \<and> fst (snd (snd (Read (ex_env no_nodes) ex_world (NewBlockReader ex_block 0) 10))) = []
   \<and> snd (snd (snd (Read (ex_env no_nodes) ex_world (NewBlockReader ex_block 0) 10)))
       = Some (ErrOther ''connection refused'')
   \<and> \<not> closed (NewBlockReader (ex_block\<lparr>Locs := []\<rparr>) 0)
   \<and> offset (NewBlockReader (ex_block\<lparr>Locs := []\<rparr>) 0)
       < NumBytes (B (block (NewBlockReader (ex_block\<lparr>Locs := []\<rparr>) 0)))
   \<and> stream (NewBlockReader (ex_block\<lparr>Locs := []\<rparr>) 0) = None
   \<and> numRemaining (datanodes (NewBlockReader (ex_block\<lparr>Locs := []\<rparr>) 0)) = 0
   \<and> snd (snd (snd (Read (ex_env no_nodes) ex_world
                      (NewBlockReader (ex_block\<lparr>Locs := []\<rparr>) 0) 10)))
       = Some ErrNoDatanodes"
proof -
  let ?br = "NewBlockReader ex_block 0"
  let ?bre = "NewBlockReader (ex_block\<lparr>Locs := []\<rparr>) 0"
  let ?R = "Read (ex_env no_nodes) ex_world ?br 10"
  have g: "\<not> closed ?br" "offset ?br < NumBytes (B (block ?br))"
    by (simp_all add: ex_reader ex_block_NumBytes)
  have ge: "\<not> closed ?bre" "offset ?bre < NumBytes (B (block ?bre))"
    by (simp_all add: NewBlockReader_def ex_block_def)
  have s: "?R = (fst ?R, fst (snd ?R), [], snd (snd (snd ?R))) \<and> stream (fst (snd ?R)) = None"
    by (simp add: refused_Read) (simp add: ex_reader)
  have se: "stream ?bre = None \<and> numRemaining (datanodes ?bre) = 0"
    by (simp add: NewBlockReader_def numRemaining_def newDatanodeFailover_def)
  have "snd (snd (snd (Read (ex_env no_nodes) ex_world ?bre 10))) = Some ErrNoDatanodes"
    using Read_exhausted [OF ge, of "ex_env no_nodes" ex_world 10] se
    by (simp add: NewBlockReader_def lastError_def newDatanodeFailover_def)
  moreover
  have "snd (snd (snd ?R)) = Some (ErrOther ''connection refused'')"
    using Read_exhausted [OF g, of "ex_env no_nodes" ex_world 10 "fst ?R" "fst (snd ?R)"
        "snd (snd (snd ?R))"] s
    by (simp add: refused_Read)
  ultimately show ?thesis
    using g ge s se by (simp add: refused_Read)
qed

end
